theory Spec2Isabelle
  imports Main
begin

section \<open>Strings and numbers as the TypeScript code renders them\<close>

text \<open>
  Strings are byte lists. A template literal \<^verbatim>\<open>${n}\<close> of a non-negative integer is its
  decimal rendering; of a negative one, a minus sign followed by the rendering of its
  absolute value.
\<close>

definition digit_char :: "nat \<Rightarrow> char" where
  "digit_char d = char_of (48 + d)"

fun string_of_nat :: "nat \<Rightarrow> string" where
  "string_of_nat n =
     (if n < 10 then [digit_char n]
      else string_of_nat (n div 10) @ [digit_char (n mod 10)])"

declare string_of_nat.simps [simp del]

definition string_of_int :: "int \<Rightarrow> string" where
  "string_of_int i =
     (if i < 0 then CHR ''-'' # string_of_nat (nat (- i)) else string_of_nat (nat i))"

definition nl :: string where
  "nl = [CHR 0x0A]"

text \<open>\<^verbatim>\<open>Array.prototype.join(sep)\<close> on an array of strings.\<close>

fun js_join :: "string \<Rightarrow> string list \<Rightarrow> string" where
  "js_join sep [] = []"
| "js_join sep [x] = x"
| "js_join sep (x # y # ys) = x @ sep @ js_join sep (y # ys)"

text \<open>\<^verbatim>\<open>Boolean(s)\<close> on a string: the empty string is falsy.\<close>

definition truthy :: "string \<Rightarrow> bool" where
  "truthy s = (s \<noteq> [])"

section \<open>engine/src/types.ts\<close>

text \<open>
  A JavaScript \<^verbatim>\<open>number\<close>, as far as the code and \<^verbatim>\<open>spawnSync\<close> tell numbers apart: a
  whole number, or anything else (\<^verbatim>\<open>NaN\<close>, an infinity, a fraction).
\<close>

datatype jsnumber = Whole int | NotWhole

datatype AgentProvider = Claude | Custom

definition provider_name :: "AgentProvider \<Rightarrow> string" where
  "provider_name p = (case p of Claude \<Rightarrow> ''claude'' | Custom \<Rightarrow> ''custom'')"

record AgentConfig =
  ac_provider :: AgentProvider
  ac_model :: "string option"
  ac_binary :: "string option"
  ac_extraArgs :: "string list option"
  ac_cwd :: "string option"
  ac_timeoutMs :: "jsnumber option"

record AgentRunInput =
  ari_taskId :: nat
  ari_issueTitle :: string
  ari_issueBody :: "string option"
  ari_repoDir :: string
  ari_branch :: string
  ari_config :: AgentConfig

record AgentRunResult =
  arr_success :: bool
  arr_output :: string
  arr_error :: "string option"
  arr_exitCode :: "int option"

record RepoWatchConfig =
  rc_owner :: string
  rc_repo :: string
  rc_label :: string
  rc_baseBranch :: "string option"

record EngineConfig =
  ec_githubToken :: string
  ec_pollIntervalMs :: nat
  ec_repos :: "RepoWatchConfig list"
  ec_agent :: AgentConfig
  ec_workDir :: string

section \<open>The child-process interface\<close>

text \<open>
  What \<^verbatim>\<open>spawnSync\<close> of \<^verbatim>\<open>node:child_process\<close> hands back: the captured streams
  (\<^verbatim>\<open>null\<close> when nothing was captured), the exit status (\<^verbatim>\<open>null\<close> when the child
  was killed by a signal or never started), and the error object when the spawn failed,
  timed out or overflowed the buffer. The error is kept as its message. The options are
  the ones the code passes.
\<close>

record SpawnSyncReturns =
  sp_stdout :: "string option"
  sp_stderr :: "string option"
  sp_status :: "int option"
  sp_error :: "string option"

record SpawnOptions =
  so_cwd :: "string option"
  so_maxBuffer :: "nat option"
  so_timeout :: "jsnumber option"

section \<open>engine/src/agent.ts\<close>

text \<open>
  \<^verbatim>\<open>buildPrompt\<close> joins its lines with a newline and trims the result. The first line
  starts with a letter and the last one ends with a full stop, so \<^verbatim>\<open>trim()\<close> removes
  nothing and is left out.
\<close>

definition buildPrompt :: "string \<Rightarrow> string option \<Rightarrow> string \<Rightarrow> string" where
  "buildPrompt issueTitle issueBody branch =
     js_join nl
       [''You are working on a GitHub issue. Your task is to implement the changes described below.'',
        '''',
        ''Issue: '' @ issueTitle,
        (case issueBody of
           None \<Rightarrow> ''''
         | Some b \<Rightarrow> if truthy b then nl @ ''Description:'' @ nl @ b else ''''),
        '''',
        ''You are working on branch: '' @ branch,
        '''',
        ''Please implement the changes, commit them, and push the branch.'',
        ''When done, output a summary of what you changed.'']"

definition buildArgs :: "AgentRunInput \<Rightarrow> string list" where
  "buildArgs input =
     (let config = ari_config input;
          prompt = buildPrompt (ari_issueTitle input) (ari_issueBody input) (ari_branch input);
          args = (if ac_provider config = Claude
                  then [''-p'', prompt] @
                       (case ac_model config of
                          None \<Rightarrow> []
                        | Some m \<Rightarrow> if truthy m then [''--model'', m] else [])
                  else [prompt])
      in case ac_extraArgs config of
           None \<Rightarrow> args
         | Some extra \<Rightarrow> if length extra > 0 then args @ extra else args)"

definition maxBuffer :: nat where
  "maxBuffer = 10 * 1024 * 1024"

definition defaultTimeoutMs :: jsnumber where
  "defaultTimeoutMs = Whole (30 * 60 * 1000)"

definition agentBinary :: "AgentRunInput \<Rightarrow> string" where
  "agentBinary input =
     (case ac_binary (ari_config input) of
        Some b \<Rightarrow> b
      | None \<Rightarrow> provider_name (ac_provider (ari_config input)))"

definition agentSpawnOptions :: "AgentRunInput \<Rightarrow> SpawnOptions" where
  "agentSpawnOptions input =
     \<lparr> so_cwd = Some (ari_repoDir input),
       so_maxBuffer = Some maxBuffer,
       so_timeout = Some (case ac_timeoutMs (ari_config input) of
                            Some t \<Rightarrow> t | None \<Rightarrow> defaultTimeoutMs) \<rparr>"

text \<open>
  The part of \<^verbatim>\<open>runAgent\<close> after the \<^verbatim>\<open>spawnSync\<close> call: it turns what the child
  process gave back into the \<^verbatim>\<open>AgentRunResult\<close>. Console output is not modelled.
\<close>

definition capturedStdout :: "SpawnSyncReturns \<Rightarrow> string" where
  "capturedStdout result = (case sp_stdout result of Some s \<Rightarrow> s | None \<Rightarrow> '''')"

definition capturedStderr :: "SpawnSyncReturns \<Rightarrow> string" where
  "capturedStderr result = (case sp_stderr result of Some s \<Rightarrow> s | None \<Rightarrow> '''')"

definition agentOutput :: "SpawnSyncReturns \<Rightarrow> string" where
  "agentOutput result =
     js_join nl (filter truthy [capturedStdout result, capturedStderr result])"

definition exitCodeText :: "int option \<Rightarrow> string" where
  "exitCodeText c = (case c of Some n \<Rightarrow> string_of_int n | None \<Rightarrow> ''null'')"

definition agentResult :: "SpawnSyncReturns \<Rightarrow> AgentRunResult" where
  "agentResult result =
     (let stderr = capturedStderr result;
          output = agentOutput result
      in case sp_error result of
           Some msg \<Rightarrow>
             \<lparr> arr_success = False, arr_output = output,
               arr_error = Some msg, arr_exitCode = None \<rparr>
         | None \<Rightarrow>
             (let exitCode = sp_status result;
                  success = (exitCode = Some 0)
              in \<lparr> arr_success = success, arr_output = output,
                   arr_error = (if success then None
                                else Some (if truthy stderr then stderr
                                           else ''Exit code '' @ exitCodeText exitCode)),
                   arr_exitCode = exitCode \<rparr>))"

section \<open>github/src/types.ts\<close>

datatype IssueState = Open | Closed

datatype PullState = PullOpen | PullClosed | PullMerged

record GitHubLabel =
  gl_id :: nat
  gl_name :: string
  gl_color :: string
  gl_description :: "string option"

record GitHubIssue =
  gi_id :: nat
  gi_number :: nat
  gi_title :: string
  gi_body :: "string option"
  gi_state :: IssueState
  gi_labels :: "GitHubLabel list"
  gi_url :: string
  gi_htmlUrl :: string
  gi_createdAt :: string
  gi_updatedAt :: string

record GitHubPullRequest =
  pr_id :: nat
  pr_number :: nat
  pr_title :: string
  pr_body :: "string option"
  pr_state :: PullState
  pr_url :: string
  pr_htmlUrl :: string
  pr_headBranch :: string
  pr_baseBranch :: string

record CreatePullRequestOptions =
  cpr_owner :: string
  cpr_repo :: string
  cpr_title :: string
  cpr_body :: string
  cpr_head :: string
  cpr_base :: string

record CreateBranchOptions =
  cb_owner :: string
  cb_repo :: string
  cb_branch :: string
  cb_fromBranch :: "string option"

record CloneRepoOptions =
  cl_cloneUrl :: string
  cl_targetDir :: string
  cl_branch :: "string option"

section \<open>db/src/schema.ts\<close>

text \<open>
  The columns the store fills by itself with the current time (\<^verbatim>\<open>created_at\<close>,
  \<^verbatim>\<open>updated_at\<close>, \<^verbatim>\<open>started_at\<close>) are never read or written by the engine and are
  left out. A table is the list of its rows in insertion order; the primary keys are
  handed out by a counter per table (\<^verbatim>\<open>autoIncrement\<close>).
\<close>

datatype TaskStatus = Todo | In_progress | Completed | Failed

datatype RunStatus = Running | Run_completed | Run_failed

record Repo =
  repo_id :: nat
  repo_githubUrl :: string
  repo_name :: string
  repo_owner :: string
  repo_watchLabel :: string

record Task =
  task_id :: nat
  task_description :: "string option"
  task_githubIssueId :: "nat option"
  task_prNumber :: "nat option"
  task_prUrl :: "string option"
  task_repoId :: "nat option"
  task_status :: TaskStatus
  task_title :: string

record AgentRun =
  run_id :: nat
  run_completedAt :: "string option"
  run_error :: "string option"
  run_model :: "string option"
  run_output :: "string option"
  run_provider :: string
  run_status :: RunStatus
  run_taskId :: nat

section \<open>The outside world\<close>

text \<open>
  Every call that leaves the process is recorded, in order, with its arguments. What the
  outside world answers is a parameter: a function of the calls made so far and of the
  arguments of the call. A thrown \<^verbatim>\<open>Error\<close> is kept as its message.
\<close>

datatype error = Error (message: string)

datatype call =
    ListIssues string string string
  | AddIssueLabel string string nat string
  | AddIssueComment string string nat string
  | CreateBranch CreateBranchOptions
  | CreatePullRequest CreatePullRequestOptions
  | SpawnSync string "string list" SpawnOptions
  | MkdirSync string
  | DateNow

record world =
  w_listIssues :: "call list \<Rightarrow> string \<Rightarrow> string \<Rightarrow> string \<Rightarrow> error + GitHubIssue list"
  w_addIssueLabel :: "call list \<Rightarrow> string \<Rightarrow> string \<Rightarrow> nat \<Rightarrow> string \<Rightarrow> error + unit"
  w_addIssueComment :: "call list \<Rightarrow> string \<Rightarrow> string \<Rightarrow> nat \<Rightarrow> string \<Rightarrow> error + unit"
  w_createBranch :: "call list \<Rightarrow> CreateBranchOptions \<Rightarrow> error + string"
  w_createPullRequest :: "call list \<Rightarrow> CreatePullRequestOptions \<Rightarrow> error + GitHubPullRequest"
  w_spawnSync :: "call list \<Rightarrow> string \<Rightarrow> string list \<Rightarrow> SpawnOptions \<Rightarrow> SpawnSyncReturns"
  w_mkdirSync :: "call list \<Rightarrow> string \<Rightarrow> error + unit"
  w_now :: "call list \<Rightarrow> string"

record state =
  repos :: "Repo list"
  tasks :: "Task list"
  agentRuns :: "AgentRun list"
  nextRepoId :: nat
  nextTaskId :: nat
  nextRunId :: nat
  calls :: "call list"

definition record_call :: "call \<Rightarrow> state \<Rightarrow> state" where
  "record_call c s = s\<lparr>calls := calls s @ [c]\<rparr>"

definition listIssues ::
  "world \<Rightarrow> string \<Rightarrow> string \<Rightarrow> string \<Rightarrow> state \<Rightarrow> (error + GitHubIssue list) \<times> state" where
  "listIssues w owner repo label s =
     (w_listIssues w (calls s) owner repo label, record_call (ListIssues owner repo label) s)"

definition addIssueLabel ::
  "world \<Rightarrow> string \<Rightarrow> string \<Rightarrow> nat \<Rightarrow> string \<Rightarrow> state \<Rightarrow> (error + unit) \<times> state" where
  "addIssueLabel w owner repo n label s =
     (w_addIssueLabel w (calls s) owner repo n label, record_call (AddIssueLabel owner repo n label) s)"

definition addIssueComment ::
  "world \<Rightarrow> string \<Rightarrow> string \<Rightarrow> nat \<Rightarrow> string \<Rightarrow> state \<Rightarrow> (error + unit) \<times> state" where
  "addIssueComment w owner repo n body s =
     (w_addIssueComment w (calls s) owner repo n body, record_call (AddIssueComment owner repo n body) s)"

definition createBranch :: "world \<Rightarrow> CreateBranchOptions \<Rightarrow> state \<Rightarrow> (error + string) \<times> state" where
  "createBranch w opts s = (w_createBranch w (calls s) opts, record_call (CreateBranch opts) s)"

definition createPullRequest ::
  "world \<Rightarrow> CreatePullRequestOptions \<Rightarrow> state \<Rightarrow> (error + GitHubPullRequest) \<times> state" where
  "createPullRequest w opts s =
     (w_createPullRequest w (calls s) opts, record_call (CreatePullRequest opts) s)"

text \<open>
  \<^verbatim>\<open>spawnSync\<close> checks its arguments before it starts anything, and throws on a malformed
  one: a NUL character in the file name, an empty file name, a NUL character in an
  argument or in the working directory, a timeout that is not a non-negative whole number.
  \<^verbatim>\<open>spawnArgsError\<close> is that check, in the order in which \<^verbatim>\<open>node:child_process\<close> makes
  it; nothing leaves the process when it fails. The git helpers call \<^verbatim>\<open>spawnSync\<close> with
  the file name \<^verbatim>\<open>git\<close>, no timeout, and arguments and directories made of the decimal
  issue number and of the configuration strings, which \<^verbatim>\<open>loadConfig\<close> reads from
  environment variables, where no NUL character can be: there the check passes and the
  call is \<^verbatim>\<open>spawnSync\<close> below. \<^verbatim>\<open>runAgent\<close> passes the configured binary, the configured
  timeout and a prompt that holds the title and the body of the issue: its call is
  \<^verbatim>\<open>spawnSyncChecked\<close>, the check followed by the call.
\<close>

definition hasNul :: "string \<Rightarrow> bool" where
  "hasNul x = (CHR 0x00 \<in> set x)"

definition validTimeout :: "jsnumber option \<Rightarrow> bool" where
  "validTimeout t = (case t of None \<Rightarrow> True | Some (Whole n) \<Rightarrow> 0 \<le> n | Some NotWhole \<Rightarrow> False)"

definition spawnArgsError :: "string \<Rightarrow> string list \<Rightarrow> SpawnOptions \<Rightarrow> error option" where
  "spawnArgsError file args opts =
     (if hasNul file then Some (Error ''The argument file must be a string without null bytes'')
      else if file = [] then Some (Error ''The argument file cannot be empty'')
      else if list_ex hasNul args
        then Some (Error ''The argument args must be a string without null bytes'')
      else if (case so_cwd opts of Some d \<Rightarrow> hasNul d | None \<Rightarrow> False)
        then Some (Error ''The argument options.cwd must be a string without null bytes'')
      else if \<not> validTimeout (so_timeout opts)
        then Some (Error ''The value of timeout is out of range'')
      else None)"

definition spawnSync ::
  "world \<Rightarrow> string \<Rightarrow> string list \<Rightarrow> SpawnOptions \<Rightarrow> state \<Rightarrow> SpawnSyncReturns \<times> state" where
  "spawnSync w cmd args opts s =
     (w_spawnSync w (calls s) cmd args opts, record_call (SpawnSync cmd args opts) s)"

definition spawnSyncChecked ::
  "world \<Rightarrow> string \<Rightarrow> string list \<Rightarrow> SpawnOptions \<Rightarrow> state
     \<Rightarrow> (error + SpawnSyncReturns) \<times> state" where
  "spawnSyncChecked w cmd args opts s =
     (case spawnArgsError cmd args opts of
        Some e \<Rightarrow> (Inl e, s)
      | None \<Rightarrow> (let (result, s1) = spawnSync w cmd args opts s in (Inr result, s1)))"

definition mkdirSync :: "world \<Rightarrow> string \<Rightarrow> state \<Rightarrow> (error + unit) \<times> state" where
  "mkdirSync w dir s = (w_mkdirSync w (calls s) dir, record_call (MkdirSync dir) s)"

definition nowISO :: "world \<Rightarrow> state \<Rightarrow> string \<times> state" where
  "nowISO w s = (w_now w (calls s), record_call DateNow s)"

text \<open>
  \<^verbatim>\<open>runAgent\<close>: spawn the agent binary in the workspace and read the result. The call of
  \<^verbatim>\<open>spawnSync\<close> is in no \<^verbatim>\<open>try\<close>, so what it throws leaves \<^verbatim>\<open>runAgent\<close>.
\<close>

definition runAgent :: "world \<Rightarrow> AgentRunInput \<Rightarrow> state \<Rightarrow> (error + AgentRunResult) \<times> state" where
  "runAgent w input s =
     (case spawnSyncChecked w (agentBinary input) (buildArgs input) (agentSpawnOptions input) s of
        (Inl e, s1) \<Rightarrow> (Inl e, s1)
      | (Inr result, s1) \<Rightarrow> (Inr (agentResult result), s1))"

section \<open>node:path, POSIX flavour\<close>

text \<open>
  \<^verbatim>\<open>path.join\<close> drops empty arguments, glues the others with a slash and normalises:
  empty segments and \<^verbatim>\<open>.\<close> vanish, \<^verbatim>\<open>..\<close> removes the segment before it (or stays,
  in a relative path with nothing left to remove), a leading slash and a trailing slash
  are kept.
\<close>

fun split_on :: "char \<Rightarrow> string \<Rightarrow> string list" where
  "split_on c [] = [[]]"
| "split_on c (x # xs) =
     (if x = c then [] # split_on c xs
      else (case split_on c xs of [] \<Rightarrow> [[x]] | p # ps \<Rightarrow> (x # p) # ps))"

definition normalize_step :: "bool \<Rightarrow> string list \<Rightarrow> string \<Rightarrow> string list" where
  "normalize_step allowAboveRoot res seg =
     (if seg = '''' \<or> seg = ''.'' then res
      else if seg = ''..'' then
        (if res \<noteq> [] \<and> last res \<noteq> ''..'' then butlast res
         else if allowAboveRoot then res @ [''..''] else res)
      else res @ [seg])"

definition normalizeString :: "string \<Rightarrow> bool \<Rightarrow> string" where
  "normalizeString path allowAboveRoot =
     js_join ''/'' (foldl (normalize_step allowAboveRoot) [] (split_on CHR ''/'' path))"

definition path_normalize :: "string \<Rightarrow> string" where
  "path_normalize path =
     (if path = [] then ''.''
      else
        (let isAbsolute = (hd path = CHR ''/'');
             trailingSeparator = (last path = CHR ''/'');
             p = normalizeString path (\<not> isAbsolute)
         in if p = [] then (if isAbsolute then ''/'' else if trailingSeparator then ''./'' else ''.'')
            else (if isAbsolute then ''/'' else '''') @ p @ (if trailingSeparator then ''/'' else '''')))"

definition path_join :: "string \<Rightarrow> string \<Rightarrow> string" where
  "path_join a b =
     (let joined = filter truthy [a, b]
      in if joined = [] then ''.'' else path_normalize (js_join ''/'' joined))"

section \<open>github/src/repos.ts: the git subprocess helpers\<close>

definition statusText :: "int option \<Rightarrow> string" where
  "statusText st = (case st of Some n \<Rightarrow> string_of_int n | None \<Rightarrow> ''unknown'')"

definition inheritOptions :: "string option \<Rightarrow> SpawnOptions" where
  "inheritOptions cwd = \<lparr> so_cwd = cwd, so_maxBuffer = None, so_timeout = None \<rparr>"

definition cloneRepo :: "world \<Rightarrow> CloneRepoOptions \<Rightarrow> state \<Rightarrow> (error + unit) \<times> state" where
  "cloneRepo w options s =
     (let args = [''clone'', ''--depth'', ''1''] @
                 (case cl_branch options of
                    None \<Rightarrow> []
                  | Some b \<Rightarrow> if truthy b then [''--branch'', b] else []) @
                 [cl_cloneUrl options, cl_targetDir options];
          (result, s1) = spawnSync w ''git'' args (inheritOptions None) s
      in case sp_error result of
           Some msg \<Rightarrow> (Inl (Error msg), s1)
         | None \<Rightarrow>
             if sp_status result \<noteq> Some 0
             then (Inl (Error (''git clone exited with code '' @ statusText (sp_status result))), s1)
             else (Inr (), s1))"

definition checkoutBranch :: "world \<Rightarrow> string \<Rightarrow> string \<Rightarrow> bool \<Rightarrow> state \<Rightarrow> (error + unit) \<times> state" where
  "checkoutBranch w repoDir branch create s =
     (let args = [''checkout''] @ (if create then [''-b''] else []) @ [branch];
          (result, s1) = spawnSync w ''git'' args (inheritOptions (Some repoDir)) s
      in case sp_error result of
           Some msg \<Rightarrow> (Inl (Error msg), s1)
         | None \<Rightarrow>
             if sp_status result \<noteq> Some 0
             then (Inl (Error (''git checkout exited with code '' @ statusText (sp_status result))), s1)
             else (Inr (), s1))"

text \<open>The loop of \<^verbatim>\<open>commitAndPush\<close> over its three commands; the first failure throws.\<close>

fun runCommands ::
  "world \<Rightarrow> string \<Rightarrow> (string \<times> string list) list \<Rightarrow> state \<Rightarrow> (error + unit) \<times> state" where
  "runCommands w repoDir [] s = (Inr (), s)"
| "runCommands w repoDir ((cmd, args) # rest) s =
     (let (result, s1) = spawnSync w cmd args (inheritOptions (Some repoDir)) s
      in case sp_error result of
           Some msg \<Rightarrow> (Inl (Error msg), s1)
         | None \<Rightarrow>
             if sp_status result \<noteq> Some 0
             then (Inl (Error (cmd @ '' '' @ js_join '' '' args @ '' exited with code '' @
                                statusText (sp_status result))), s1)
             else runCommands w repoDir rest s1)"

definition commitAndPush :: "world \<Rightarrow> string \<Rightarrow> string \<Rightarrow> string \<Rightarrow> state \<Rightarrow> (error + unit) \<times> state" where
  "commitAndPush w repoDir msg branch s =
     runCommands w repoDir
       [(''git'', [''add'', ''-A'']),
        (''git'', [''commit'', ''-m'', msg]),
        (''git'', [''push'', ''origin'', branch])] s"

section \<open>engine/src/orchestrator.ts\<close>

text \<open>
  The class \<^verbatim>\<open>Orchestrator\<close> of \<^verbatim>\<open>src/unnamed/part_008\<close>, method by method, from
  \<^verbatim>\<open>poll\<close> downwards. Each method takes the state (the three tables and the log of
  outside calls) and returns its result, or the error it throws, together with the new
  state. Console output is not modelled, nor are \<^verbatim>\<open>start\<close>, \<^verbatim>\<open>stop\<close> and the endless
  \<^verbatim>\<open>loop\<close> around \<^verbatim>\<open>poll\<close>. The store itself never fails: every row the engine inserts
  satisfies the constraints of the schema, and I/O errors of the database are left out.
\<close>

definition requireFirst :: "'a list \<Rightarrow> string \<Rightarrow> error + 'a" where
  "requireFirst rows context =
     (case rows of
        [] \<Rightarrow> Inl (Error (''Expected at least one row: '' @ context))
      | row # _ \<Rightarrow> Inr row)"

subsection \<open>The queries the engine issues\<close>

text \<open>
  One definition for each query the engine sends to the store. An insert gives the new
  row the next id of its table, whatever id the values carry.
\<close>

text \<open>\<^verbatim>\<open>select().from(tasks).where(eq(tasks.githubIssueId, n)).limit(1).all()\<close>\<close>

definition selectTasksByIssue :: "nat \<Rightarrow> state \<Rightarrow> Task list" where
  "selectTasksByIssue n s = take 1 (filter (\<lambda>t. task_githubIssueId t = Some n) (tasks s))"

text \<open>\<^verbatim>\<open>update(tasks).set(...).where(eq(tasks.id, taskId)).run()\<close>\<close>

definition updateTasks :: "(Task \<Rightarrow> Task) \<Rightarrow> nat \<Rightarrow> state \<Rightarrow> state" where
  "updateTasks f taskId s =
     s\<lparr>tasks := map (\<lambda>t. if task_id t = taskId then f t else t) (tasks s)\<rparr>"

text \<open>\<^verbatim>\<open>update(agentRuns).set(...).where(eq(agentRuns.id, runId)).run()\<close>\<close>

definition updateAgentRuns :: "(AgentRun \<Rightarrow> AgentRun) \<Rightarrow> nat \<Rightarrow> state \<Rightarrow> state" where
  "updateAgentRuns f runId s =
     s\<lparr>agentRuns := map (\<lambda>r. if run_id r = runId then f r else r) (agentRuns s)\<rparr>"

text \<open>\<^verbatim>\<open>insert(tasks).values(...).returning({ id: tasks.id }).all()\<close>\<close>

definition insertTask :: "Task \<Rightarrow> state \<Rightarrow> nat list \<times> state" where
  "insertTask vals s =
     (let row = vals\<lparr>task_id := nextTaskId s\<rparr>
      in ([task_id row], s\<lparr>tasks := tasks s @ [row], nextTaskId := Suc (nextTaskId s)\<rparr>))"

text \<open>\<^verbatim>\<open>insert(agentRuns).values(...).returning({ id: agentRuns.id }).all()\<close>\<close>

definition insertAgentRun :: "AgentRun \<Rightarrow> state \<Rightarrow> nat list \<times> state" where
  "insertAgentRun vals s =
     (let row = vals\<lparr>run_id := nextRunId s\<rparr>
      in ([run_id row], s\<lparr>agentRuns := agentRuns s @ [row], nextRunId := Suc (nextRunId s)\<rparr>))"

text \<open>\<^verbatim>\<open>insert(repos).values(...).returning().all()\<close>\<close>

definition insertRepo :: "Repo \<Rightarrow> state \<Rightarrow> Repo list \<times> state" where
  "insertRepo vals s =
     (let row = vals\<lparr>repo_id := nextRepoId s\<rparr>
      in ([row], s\<lparr>repos := repos s @ [row], nextRepoId := Suc (nextRepoId s)\<rparr>))"

subsection \<open>upsertRepo\<close>

definition newRepo :: "RepoWatchConfig \<Rightarrow> Repo" where
  "newRepo repoConfig =
     \<lparr> repo_id = 0,
       repo_githubUrl = ''https://github.com/'' @ rc_owner repoConfig @ ''/'' @ rc_repo repoConfig,
       repo_name = rc_repo repoConfig, repo_owner = rc_owner repoConfig,
       repo_watchLabel = rc_label repoConfig \<rparr>"

definition upsertRepo :: "RepoWatchConfig \<Rightarrow> state \<Rightarrow> (error + Repo) \<times> state" where
  "upsertRepo repoConfig s =
     (let owner = rc_owner repoConfig; repo = rc_repo repoConfig;
          all = filter (\<lambda>r. repo_owner r = owner) (repos s)
      in case find (\<lambda>r. repo_name r = repo) all of
           Some found \<Rightarrow> (Inr found, s)
         | None \<Rightarrow>
             (let (inserted, s1) = insertRepo (newRepo repoConfig) s
              in (requireFirst inserted ''insert repo'', s1)))"

subsection \<open>The pipeline of one task\<close>

definition newAgentRun :: "EngineConfig \<Rightarrow> nat \<Rightarrow> AgentRun" where
  "newAgentRun config taskId =
     \<lparr> run_id = 0, run_completedAt = None, run_error = None,
       run_model = ac_model (ec_agent config), run_output = None,
       run_provider = provider_name (ac_provider (ec_agent config)),
       run_status = Running, run_taskId = taskId \<rparr>"

definition createAgentRun :: "EngineConfig \<Rightarrow> nat \<Rightarrow> state \<Rightarrow> (error + nat) \<times> state" where
  "createAgentRun config taskId s =
     (let (inserted, s1) = insertAgentRun (newAgentRun config taskId) s
      in (requireFirst inserted ''insert agentRun'', s1))"

text \<open>The two names \<^verbatim>\<open>prepareWorkDir\<close> computes from the issue.\<close>

definition issueBranch :: "GitHubIssue \<Rightarrow> string" where
  "issueBranch issue = ''loom/issue-'' @ string_of_nat (gi_number issue)"

definition workspaceName :: "string \<Rightarrow> string \<Rightarrow> nat \<Rightarrow> string" where
  "workspaceName owner repo n = owner @ ''-'' @ repo @ ''-'' @ string_of_nat n"

definition issueRepoDir :: "EngineConfig \<Rightarrow> RepoWatchConfig \<Rightarrow> GitHubIssue \<Rightarrow> string" where
  "issueRepoDir config repoConfig issue =
     path_join (ec_workDir config)
       (workspaceName (rc_owner repoConfig) (rc_repo repoConfig) (gi_number issue))"

definition cloneUrl :: "EngineConfig \<Rightarrow> RepoWatchConfig \<Rightarrow> string" where
  "cloneUrl config repoConfig =
     ''https://'' @ ec_githubToken config @ ''@github.com/'' @
     rc_owner repoConfig @ ''/'' @ rc_repo repoConfig @ ''.git''"

definition prepareWorkDir ::
  "world \<Rightarrow> EngineConfig \<Rightarrow> RepoWatchConfig \<Rightarrow> GitHubIssue \<Rightarrow> state
     \<Rightarrow> (error + string \<times> string) \<times> state" where
  "prepareWorkDir w config repoConfig issue s =
     (let branch = issueBranch issue;
          repoDir = issueRepoDir config repoConfig issue
      in case mkdirSync w (ec_workDir config) s of
           (Inl e, s1) \<Rightarrow> (Inl e, s1)
         | (Inr _, s1) \<Rightarrow>
             (case cloneRepo w \<lparr> cl_cloneUrl = cloneUrl config repoConfig,
                                    cl_targetDir = repoDir, cl_branch = None \<rparr> s1 of
                (Inl e, s2) \<Rightarrow> (Inl e, s2)
              | (Inr _, s2) \<Rightarrow> (Inr (branch, repoDir), s2)))"

definition prepareBranch ::
  "world \<Rightarrow> RepoWatchConfig \<Rightarrow> string \<Rightarrow> string \<Rightarrow> state \<Rightarrow> (error + unit) \<times> state" where
  "prepareBranch w repoConfig branch repoDir s =
     (let (_, s1) = createBranch w \<lparr> cb_owner = rc_owner repoConfig, cb_repo = rc_repo repoConfig,
                                      cb_branch = branch,
                                      cb_fromBranch = rc_baseBranch repoConfig \<rparr> s
      in checkoutBranch w repoDir branch True s1)"

definition executeAgent ::
  "world \<Rightarrow> EngineConfig \<Rightarrow> GitHubIssue \<Rightarrow> string \<Rightarrow> string \<Rightarrow> nat \<Rightarrow> state
     \<Rightarrow> (error + AgentRunResult) \<times> state" where
  "executeAgent w config issue repoDir branch taskId s =
     (case runAgent w \<lparr> ari_taskId = taskId, ari_issueTitle = gi_title issue,
                         ari_issueBody = gi_body issue, ari_repoDir = repoDir,
                         ari_branch = branch, ari_config = ec_agent config \<rparr> s of
        (Inl e, s1) \<Rightarrow> (Inl e, s1)
      | (Inr result, s1) \<Rightarrow>
          if \<not> arr_success result
          then (Inl (Error (case arr_error result of
                              Some msg \<Rightarrow> msg
                            | None \<Rightarrow> ''Agent exited with code '' @
                                        exitCodeText (arr_exitCode result))), s1)
          else (Inr result, s1))"

definition robotEmoji :: string where
  "robotEmoji = [CHR 0xF0, CHR 0x9F, CHR 0xA4, CHR 0x96]"

definition checkEmoji :: string where
  "checkEmoji = [CHR 0xE2, CHR 0x9C, CHR 0x85]"

definition crossEmoji :: string where
  "crossEmoji = [CHR 0xE2, CHR 0x9D, CHR 0x8C]"

definition pullRequestBody :: "GitHubIssue \<Rightarrow> string \<Rightarrow> string" where
  "pullRequestBody issue output =
     js_join nl
       [''This PR was automatically generated by Loom to resolve issue #'' @
          string_of_nat (gi_number issue) @ ''.'',
        '''',
        ''**Issue:** '' @ gi_title issue,
        '''',
        ''**Agent output:**'',
        ''```'',
        take 3000 output,
        ''```'',
        '''',
        ''Closes #'' @ string_of_nat (gi_number issue)]"

definition commitMessage :: "GitHubIssue \<Rightarrow> string" where
  "commitMessage issue =
     ''fix: resolve issue #'' @ string_of_nat (gi_number issue) @ '' via loom'' @ nl @ nl @
     ''Closes #'' @ string_of_nat (gi_number issue)"

definition pullRequestOptions ::
  "GitHubIssue \<Rightarrow> RepoWatchConfig \<Rightarrow> string \<Rightarrow> AgentRunResult \<Rightarrow> CreatePullRequestOptions" where
  "pullRequestOptions issue repoConfig branch result =
     \<lparr> cpr_owner = rc_owner repoConfig, cpr_repo = rc_repo repoConfig,
       cpr_title = ''fix: '' @ gi_title issue @ '' (#'' @ string_of_nat (gi_number issue) @ '')'',
       cpr_body = pullRequestBody issue (arr_output result),
       cpr_head = branch,
       cpr_base = (case rc_baseBranch repoConfig of Some b \<Rightarrow> b | None \<Rightarrow> ''main'') \<rparr>"

definition doneComment :: "GitHubPullRequest \<Rightarrow> string" where
  "doneComment pr = checkEmoji @ '' Done! PR opened: '' @ pr_htmlUrl pr"

definition failureComment :: "string \<Rightarrow> string" where
  "failureComment errorMsg = crossEmoji @ '' Loom failed to process this issue: '' @ errorMsg"

definition workingComment :: "nat \<Rightarrow> string" where
  "workingComment taskId =
     robotEmoji @ '' Loom is working on this issue (task #'' @ string_of_nat taskId @
     ''). I'' @ [CHR 0x27] @ ''ll open a PR when done.''"

text \<open>The column assignments of the four closing \<^verbatim>\<open>update ... set\<close> statements.\<close>

definition taskCompleted :: "GitHubPullRequest \<Rightarrow> Task \<Rightarrow> Task" where
  "taskCompleted pr t =
     t\<lparr>task_prNumber := Some (pr_number pr), task_prUrl := Some (pr_htmlUrl pr),
       task_status := Completed\<rparr>"

definition runCompleted :: "string \<Rightarrow> string \<Rightarrow> AgentRun \<Rightarrow> AgentRun" where
  "runCompleted now output r =
     r\<lparr>run_completedAt := Some now, run_output := Some output, run_status := Run_completed\<rparr>"

definition taskFailed :: "Task \<Rightarrow> Task" where
  "taskFailed t = t\<lparr>task_status := Failed\<rparr>"

definition runFailed :: "string \<Rightarrow> string \<Rightarrow> AgentRun \<Rightarrow> AgentRun" where
  "runFailed now errorMsg r =
     r\<lparr>run_completedAt := Some now, run_error := Some errorMsg, run_status := Run_failed\<rparr>"

definition submitPullRequest ::
  "world \<Rightarrow> EngineConfig \<Rightarrow> AgentRunResult \<Rightarrow> GitHubIssue \<Rightarrow> RepoWatchConfig \<Rightarrow> string
     \<Rightarrow> nat \<Rightarrow> nat \<Rightarrow> state \<Rightarrow> (error + unit) \<times> state" where
  "submitPullRequest w config result issue repoConfig branch taskId runId s =
     (let owner = rc_owner repoConfig; repo = rc_repo repoConfig;
          repoDir = issueRepoDir config repoConfig issue
      in case commitAndPush w repoDir (commitMessage issue) branch s of
           (Inl e, s1) \<Rightarrow> (Inl e, s1)
         | (Inr _, s1) \<Rightarrow>
             (case createPullRequest w (pullRequestOptions issue repoConfig branch result) s1 of
                (Inl e, s2) \<Rightarrow> (Inl e, s2)
              | (Inr pr, s2) \<Rightarrow>
                  (let (now, s3) = nowISO w s2;
                       s4 = updateTasks (taskCompleted pr) taskId s3;
                       s5 = updateAgentRuns (runCompleted now (arr_output result)) runId s4;
                       (_, s6) = addIssueComment w owner repo (gi_number issue) (doneComment pr) s5
                   in (Inr (), s6))))"

text \<open>
  \<^verbatim>\<open>recordFailure\<close>: the failure comment is sent without waiting for it and a rejection
  is dropped, so only the call is recorded.
\<close>

definition recordFailure ::
  "world \<Rightarrow> nat \<Rightarrow> nat \<Rightarrow> error \<Rightarrow> GitHubIssue \<Rightarrow> RepoWatchConfig \<Rightarrow> state \<Rightarrow> state" where
  "recordFailure w taskId runId err issue repoConfig s =
     (let errorMsg = message err;
          (now, s1) = nowISO w s;
          s2 = updateTasks taskFailed taskId s1;
          s3 = updateAgentRuns (runFailed now errorMsg) runId s2;
          (_, s4) = addIssueComment w (rc_owner repoConfig) (rc_repo repoConfig) (gi_number issue)
                      (failureComment errorMsg) s3
      in s4)"

text \<open>The body of the \<^verbatim>\<open>try\<close> block of \<^verbatim>\<open>runAgentForTask\<close>.\<close>

definition pipelineSteps ::
  "world \<Rightarrow> EngineConfig \<Rightarrow> nat \<Rightarrow> nat \<Rightarrow> GitHubIssue \<Rightarrow> RepoWatchConfig \<Rightarrow> state
     \<Rightarrow> (error + unit) \<times> state" where
  "pipelineSteps w config taskId runId issue repoConfig s =
     (case prepareWorkDir w config repoConfig issue s of
        (Inl e, s1) \<Rightarrow> (Inl e, s1)
      | (Inr (branch, repoDir), s1) \<Rightarrow>
          (case prepareBranch w repoConfig branch repoDir s1 of
             (Inl e, s2) \<Rightarrow> (Inl e, s2)
           | (Inr _, s2) \<Rightarrow>
               (case executeAgent w config issue repoDir branch taskId s2 of
                  (Inl e, s3) \<Rightarrow> (Inl e, s3)
                | (Inr result, s3) \<Rightarrow>
                    submitPullRequest w config result issue repoConfig branch taskId runId s3)))"

definition runAgentForTask ::
  "world \<Rightarrow> EngineConfig \<Rightarrow> nat \<Rightarrow> GitHubIssue \<Rightarrow> RepoWatchConfig \<Rightarrow> state
     \<Rightarrow> (error + unit) \<times> state" where
  "runAgentForTask w config taskId issue repoConfig s =
     (case createAgentRun config taskId s of
        (Inl e, s1) \<Rightarrow> (Inl e, s1)
      | (Inr runId, s1) \<Rightarrow>
          (case pipelineSteps w config taskId runId issue repoConfig s1 of
             (Inl err, s2) \<Rightarrow> (Inr (), recordFailure w taskId runId err issue repoConfig s2)
           | (Inr _, s2) \<Rightarrow> (Inr (), s2)))"

subsection \<open>Reconciling one issue\<close>

text \<open>
  \<^verbatim>\<open>handleIssue\<close> (lines 83 to 143) in its four parts: the lookup of lines 91 to 93, the
  early return of lines 94 to 101, the choice of the task id of lines 103 to 123 and the
  notifications of lines 125 to 140. First \<^verbatim>\<open>existing[0]\<close> of the lookup by issue number.
\<close>

definition existingTask :: "GitHubIssue \<Rightarrow> state \<Rightarrow> Task option" where
  "existingTask issue s =
     (case selectTasksByIssue (gi_number issue) s of [] \<Rightarrow> None | t # _ \<Rightarrow> Some t)"

text \<open>The test that makes \<^verbatim>\<open>handleIssue\<close> return early.\<close>

definition alreadyHandled :: "Task option \<Rightarrow> bool" where
  "alreadyHandled existing =
     (case existing of
        None \<Rightarrow> False
      | Some t \<Rightarrow> task_status t = In_progress \<or> task_status t = Completed)"

text \<open>Reusing the failed task or inserting a new one: the task id to work on.\<close>

definition newTask :: "GitHubIssue \<Rightarrow> Repo \<Rightarrow> Task" where
  "newTask issue repoRecord =
     \<lparr> task_id = 0, task_description = gi_body issue,
       task_githubIssueId = Some (gi_number issue),
       task_prNumber = None, task_prUrl = None,
       task_repoId = Some (repo_id repoRecord),
       task_status = In_progress, task_title = gi_title issue \<rparr>"

definition insertNewTask :: "GitHubIssue \<Rightarrow> Repo \<Rightarrow> state \<Rightarrow> (error + nat) \<times> state" where
  "insertNewTask issue repoRecord s =
     (let (inserted, s1) = insertTask (newTask issue repoRecord) s
      in (requireFirst inserted ''insert task'', s1))"

definition taskRetried :: "Repo \<Rightarrow> Task \<Rightarrow> Task" where
  "taskRetried repoRecord t =
     t\<lparr>task_repoId := Some (repo_id repoRecord), task_status := In_progress\<rparr>"

definition resolveTaskId ::
  "Task option \<Rightarrow> GitHubIssue \<Rightarrow> Repo \<Rightarrow> state \<Rightarrow> (error + nat) \<times> state" where
  "resolveTaskId existing issue repoRecord s =
     (case existing of
        None \<Rightarrow> insertNewTask issue repoRecord s
      | Some t \<Rightarrow>
          if task_status t = Failed
          then (Inr (task_id t), updateTasks (taskRetried repoRecord) (task_id t) s)
          else insertNewTask issue repoRecord s)"

text \<open>The two notifications; whatever they throw is caught and dropped.\<close>

definition notifyWorking :: "world \<Rightarrow> RepoWatchConfig \<Rightarrow> GitHubIssue \<Rightarrow> nat \<Rightarrow> state \<Rightarrow> state" where
  "notifyWorking w repoConfig issue taskId s =
     (let owner = rc_owner repoConfig; repo = rc_repo repoConfig;
          (_, s1) = addIssueLabel w owner repo (gi_number issue) ''loom:working'' s;
          (_, s2) = addIssueComment w owner repo (gi_number issue) (workingComment taskId) s1
      in s2)"

definition handleIssue ::
  "world \<Rightarrow> EngineConfig \<Rightarrow> GitHubIssue \<Rightarrow> Repo \<Rightarrow> RepoWatchConfig \<Rightarrow> state
     \<Rightarrow> (error + unit) \<times> state" where
  "handleIssue w config issue repoRecord repoConfig s =
     (let existing = existingTask issue s
      in if alreadyHandled existing then (Inr (), s)
         else (case resolveTaskId existing issue repoRecord s of
                 (Inl e, s1) \<Rightarrow> (Inl e, s1)
               | (Inr taskId, s1) \<Rightarrow>
                   runAgentForTask w config taskId issue repoConfig
                     (notifyWorking w repoConfig issue taskId s1)))"

subsection \<open>The poll cycle\<close>

text \<open>The loop of \<^verbatim>\<open>processRepo\<close> over the listed issues; a throw leaves the loop.\<close>

fun handleIssues ::
  "world \<Rightarrow> EngineConfig \<Rightarrow> GitHubIssue list \<Rightarrow> Repo \<Rightarrow> RepoWatchConfig \<Rightarrow> state
     \<Rightarrow> (error + unit) \<times> state" where
  "handleIssues w config [] repoRecord repoConfig s = (Inr (), s)"
| "handleIssues w config (issue # issues) repoRecord repoConfig s =
     (case handleIssue w config issue repoRecord repoConfig s of
        (Inl e, s1) \<Rightarrow> (Inl e, s1)
      | (Inr _, s1) \<Rightarrow> handleIssues w config issues repoRecord repoConfig s1)"

definition processRepo ::
  "world \<Rightarrow> EngineConfig \<Rightarrow> RepoWatchConfig \<Rightarrow> state \<Rightarrow> (error + unit) \<times> state" where
  "processRepo w config repoConfig s =
     (case upsertRepo repoConfig s of
        (Inl e, s1) \<Rightarrow> (Inl e, s1)
      | (Inr repoRecord, s1) \<Rightarrow>
          (case listIssues w (rc_owner repoConfig) (rc_repo repoConfig) (rc_label repoConfig) s1 of
             (Inl e, s2) \<Rightarrow> (Inl e, s2)
           | (Inr issues, s2) \<Rightarrow> handleIssues w config issues repoRecord repoConfig s2))"

text \<open>
  The loop of \<^verbatim>\<open>poll\<close> over the configured repositories: what \<^verbatim>\<open>processRepo\<close> throws is
  caught and logged, and the loop goes on.
\<close>

fun pollRepos :: "world \<Rightarrow> EngineConfig \<Rightarrow> RepoWatchConfig list \<Rightarrow> state \<Rightarrow> state" where
  "pollRepos w config [] s = s"
| "pollRepos w config (repoConfig # rest) s =
     pollRepos w config rest (snd (processRepo w config repoConfig s))"

definition poll :: "world \<Rightarrow> EngineConfig \<Rightarrow> state \<Rightarrow> (error + unit) \<times> state" where
  "poll w config s = (Inr (), pollRepos w config (ec_repos config) s)"

section \<open>Concrete runs\<close>

text \<open>
  A world in which every outside call succeeds, an empty store, and the small inputs
  the worked examples below run on.
\<close>

definition quietWorld :: world where
  "quietWorld =
     \<lparr> w_listIssues = (\<lambda>_ _ _ _. Inr []),
       w_addIssueLabel = (\<lambda>_ _ _ _ _. Inr ()),
       w_addIssueComment = (\<lambda>_ _ _ _ _. Inr ()),
       w_createBranch = (\<lambda>_ _. Inr ''0123abc''),
       w_createPullRequest = (\<lambda>_ opts.
          Inr \<lparr> pr_id = 9001, pr_number = 7, pr_title = cpr_title opts,
                pr_body = Some (cpr_body opts), pr_state = PullOpen,
                pr_url = ''https://api.github.com/repos/acme/app/pulls/7'',
                pr_htmlUrl = ''https://github.com/acme/app/pull/7'',
                pr_headBranch = cpr_head opts, pr_baseBranch = cpr_base opts \<rparr>),
       w_spawnSync = (\<lambda>_ _ _ _. \<lparr> sp_stdout = None, sp_stderr = None,
                                    sp_status = Some 0, sp_error = None \<rparr>),
       w_mkdirSync = (\<lambda>_ _. Inr ()),
       w_now = (\<lambda>_. ''2025-01-01T00:00:00.000Z'') \<rparr>"

definition emptyState :: state where
  "emptyState = \<lparr> repos = [], tasks = [], agentRuns = [], nextRepoId = 1, nextTaskId = 1,
                   nextRunId = 1, calls = [] \<rparr>"

definition claudeConfig :: AgentConfig where
  "claudeConfig = \<lparr> ac_provider = Claude, ac_model = None, ac_binary = None,
                     ac_extraArgs = None, ac_cwd = None, ac_timeoutMs = None \<rparr>"

definition agentInput :: AgentRunInput where
  "agentInput =
     \<lparr> ari_taskId = 1, ari_issueTitle = ''Fix typo'', ari_issueBody = None,
       ari_repoDir = ''/tmp/loom-agent/acme-app-42'', ari_branch = ''loom/issue-42'',
       ari_config = claudeConfig \<rparr>"

text \<open>
  What the world answers to the spawn of the agent binary made by \<^verbatim>\<open>runAgent\<close>, and
  what the argument check of \<^verbatim>\<open>spawnSync\<close> says of that spawn.
\<close>

definition spawnAnswer :: "world \<Rightarrow> AgentRunInput \<Rightarrow> state \<Rightarrow> SpawnSyncReturns" where
  "spawnAnswer w input s =
     w_spawnSync w (calls s) (agentBinary input) (buildArgs input) (agentSpawnOptions input)"

definition agentArgsError :: "AgentRunInput \<Rightarrow> error option" where
  "agentArgsError input =
     spawnArgsError (agentBinary input) (buildArgs input) (agentSpawnOptions input)"

text \<open>
  Inputs of \<^verbatim>\<open>runAgent\<close> that \<^verbatim>\<open>spawnSync\<close> refuses. The engine can receive the first
  three: the binary configured as the empty string (\<^verbatim>\<open>AGENT_BINARY=\<close>), an issue whose
  title holds a NUL character, and a timeout that is not a number
  (\<^verbatim>\<open>AGENT_TIMEOUT_MS=soon\<close>). The last two are a NUL character in the binary and in the
  working directory.
\<close>

definition emptyBinary :: AgentRunInput where
  "emptyBinary = agentInput\<lparr>ari_config := claudeConfig\<lparr>ac_binary := Some []\<rparr>\<rparr>"

definition nulTitle :: AgentRunInput where
  "nulTitle = agentInput\<lparr>ari_issueTitle := ''Fix'' @ [CHR 0x00] @ ''typo''\<rparr>"

definition badTimeout :: AgentRunInput where
  "badTimeout = agentInput\<lparr>ari_config := claudeConfig\<lparr>ac_timeoutMs := Some NotWhole\<rparr>\<rparr>"

definition nulBinary :: AgentRunInput where
  "nulBinary = agentInput\<lparr>ari_config := claudeConfig\<lparr>ac_binary := Some (''claude'' @ [CHR 0x00])\<rparr>\<rparr>"

definition nulRepoDir :: AgentRunInput where
  "nulRepoDir = agentInput\<lparr>ari_repoDir := ''/tmp/loom-agent/'' @ [CHR 0x00]\<rparr>"

text \<open>A child that is killed at the timeout, traps the signal and exits with code 0.\<close>

definition timedOutExitZero :: SpawnSyncReturns where
  "timedOutExitZero = \<lparr> sp_stdout = Some ''partial'', sp_stderr = Some '''',
       sp_status = Some 0, sp_error = Some ''spawnSync claude ETIMEDOUT'' \<rparr>"

definition exitTwo :: SpawnSyncReturns where
  "exitTwo = \<lparr> sp_stdout = Some '''', sp_stderr = Some ''boom'',
                sp_status = Some 2, sp_error = None \<rparr>"

definition bothStreams :: SpawnSyncReturns where
  "bothStreams = \<lparr> sp_stdout = Some ''a'', sp_stderr = Some ''b'',
                    sp_status = Some 0, sp_error = None \<rparr>"


definition spawning :: "SpawnSyncReturns \<Rightarrow> world" where
  "spawning r = quietWorld\<lparr>w_spawnSync := (\<lambda>_ _ _ _. r)\<rparr>"

definition acmeRepo :: RepoWatchConfig where
  "acmeRepo = \<lparr> rc_owner = ''acme'', rc_repo = ''app'', rc_label = ''loom'',
                 rc_baseBranch = None \<rparr>"

definition engineConfig :: EngineConfig where
  "engineConfig = \<lparr> ec_githubToken = ''token'', ec_pollIntervalMs = 60000,
                     ec_repos = [acmeRepo], ec_agent = claudeConfig,
                     ec_workDir = ''/tmp/loom-agent'' \<rparr>"

definition issueNo :: "nat \<Rightarrow> GitHubIssue" where
  "issueNo n = \<lparr> gi_id = 1000 + n, gi_number = n, gi_title = ''Fix typo'', gi_body = None,
                  gi_state = Open, gi_labels = [], gi_url = [], gi_htmlUrl = [],
                  gi_createdAt = [], gi_updatedAt = [] \<rparr>"

definition repoRow :: "nat \<Rightarrow> string \<Rightarrow> Repo" where
  "repoRow i name = \<lparr> repo_id = i, repo_githubUrl = ''https://github.com/acme/'' @ name,
                        repo_name = name, repo_owner = ''acme'', repo_watchLabel = ''loom'' \<rparr>"

definition taskRow :: "nat \<Rightarrow> nat \<Rightarrow> nat \<Rightarrow> TaskStatus \<Rightarrow> Task" where
  "taskRow i repoId n st =
     \<lparr> task_id = i, task_description = None, task_githubIssueId = Some n,
       task_prNumber = None, task_prUrl = None, task_repoId = Some repoId,
       task_status = st, task_title = ''Fix typo'' \<rparr>"

definition storeWith :: "Task list \<Rightarrow> state" where
  "storeWith ts = \<lparr> repos = [repoRow 1 ''app'', repoRow 2 ''lib''], tasks = ts, agentRuns = [],
                     nextRepoId = 3, nextTaskId = Suc (length ts), nextRunId = 1, calls = [] \<rparr>"

text \<open>A world in which labelling and commenting always fail.\<close>

definition deafWorld :: world where
  "deafWorld = quietWorld
     \<lparr> w_addIssueLabel := (\<lambda>_ _ _ _ _. Inl (Error ''Label does not exist'')),
       w_addIssueComment := (\<lambda>_ _ _ _ _. Inl (Error ''Service unavailable'')) \<rparr>"

definition libRepo :: RepoWatchConfig where
  "libRepo = \<lparr> rc_owner = ''acme'', rc_repo = ''lib'', rc_label = ''loom'',
                rc_baseBranch = None \<rparr>"

text \<open>
  A world that lists issues 1 and 2 for \<^verbatim>\<open>acme/app\<close>, fails to list \<^verbatim>\<open>acme/lib\<close> and
  lists issue 3 for anything else, and in which every child process exits with code 2.
\<close>

definition roughWorld :: world where
  "roughWorld = quietWorld
     \<lparr> w_listIssues := (\<lambda>_ owner repo _.
          if repo = ''app'' then Inr [issueNo 1, issueNo 2]
          else if repo = ''lib'' then Inl (Error ''Bad credentials'')
          else Inr [issueNo 3]),
       w_spawnSync := (\<lambda>_ _ _ _. exitTwo) \<rparr>"

definition toolsRepo :: RepoWatchConfig where
  "toolsRepo = \<lparr> rc_owner = ''acme'', rc_repo = ''tools'', rc_label = ''loom'',
                  rc_baseBranch = None \<rparr>"

definition threeRepos :: EngineConfig where
  "threeRepos = engineConfig\<lparr>ec_repos := [acmeRepo, libRepo, toolsRepo]\<rparr>"

text \<open>
  Two watched repositories that each have an open issue number 5 (two issues, with two
  global ids), in a world where everything succeeds and in a world where every child
  process exits with code 2.
\<close>

definition twoRepos :: EngineConfig where
  "twoRepos = engineConfig\<lparr>ec_repos := [acmeRepo, libRepo]\<rparr>"

definition twinWorld :: world where
  "twinWorld = quietWorld
     \<lparr> w_listIssues := (\<lambda>_ owner repo _.
          if repo = ''app'' then Inr [issueNo 5] else Inr [(issueNo 5)\<lparr>gi_id := 2005\<rparr>]) \<rparr>"

definition twinRoughWorld :: world where
  "twinRoughWorld = twinWorld\<lparr>w_spawnSync := (\<lambda>_ _ _ _. exitTwo)\<rparr>"

text \<open>The lookup as the specification words it: by the pair of repository and issue number.\<close>

definition findTaskByIssue_spec :: "nat \<Rightarrow> nat \<Rightarrow> state \<Rightarrow> Task option" where
  "findTaskByIssue_spec repoId n s =
     find (\<lambda>t. task_repoId t = Some repoId \<and> task_githubIssueId t = Some n) (tasks s)"

text \<open>A world in which the remote branch already exists.\<close>

definition branchTaken :: world where
  "branchTaken = quietWorld\<lparr>w_createBranch := (\<lambda>_ _. Inl (Error ''Reference already exists''))\<rparr>"

text \<open>
  What the world answers to the \<^verbatim>\<open>git checkout -b\<close> spawned by \<^verbatim>\<open>prepareBranch\<close>, which
  comes right after the \<^verbatim>\<open>createBranch\<close> call.
\<close>

definition checkoutAnswer :: "world \<Rightarrow> RepoWatchConfig \<Rightarrow> string \<Rightarrow> string \<Rightarrow> state \<Rightarrow> SpawnSyncReturns" where
  "checkoutAnswer w repoConfig branch repoDir s =
     w_spawnSync w
       (calls s @ [CreateBranch \<lparr> cb_owner = rc_owner repoConfig, cb_repo = rc_repo repoConfig,
                                   cb_branch = branch, cb_fromBranch = rc_baseBranch repoConfig \<rparr>])
       ''git'' [''checkout'', ''-b'', branch] (inheritOptions (Some repoDir))"



section \<open>Notions used in the proofs\<close>

definition isListIssues :: "call \<Rightarrow> bool" where
  "isListIssues c = (case c of ListIssues _ _ _ \<Rightarrow> True | _ \<Rightarrow> False)"

text \<open>
  A step that only talked to the outside world, and not to list issues: the store is
  untouched and the call log has grown by calls other than \<^verbatim>\<open>listIssues\<close>.
\<close>

definition outside_only :: "state \<Rightarrow> state \<Rightarrow> bool" where
  "outside_only s s' =
     (\<exists>cs. s' = s\<lparr>calls := calls s @ cs\<rparr> \<and> (\<forall>c \<in> set cs. \<not> isListIssues c))"

text \<open>
  What the two closing updates of a pipeline run do to a row: the keys stay, the status
  becomes a final one.
\<close>

definition closes_task :: "(Task \<Rightarrow> Task) \<Rightarrow> bool" where
  "closes_task f =
     (\<forall>t. task_id (f t) = task_id t \<and> task_githubIssueId (f t) = task_githubIssueId t \<and>
          (task_status (f t) = Completed \<or> task_status (f t) = Failed))"

definition closes_run :: "(AgentRun \<Rightarrow> AgentRun) \<Rightarrow> bool" where
  "closes_run g =
     (\<forall>r. run_id (g r) = run_id r \<and> run_taskId (g r) = run_taskId r \<and>
          (run_status (g r) = Run_completed \<or> run_status (g r) = Run_failed))"

text \<open>
  An update of a task row that leaves its keys alone and never moves it back to
  \<^verbatim>\<open>todo\<close>.
\<close>

definition keeps_task :: "(Task \<Rightarrow> Task) \<Rightarrow> bool" where
  "keeps_task h =
     (\<forall>t. task_id (h t) = task_id t \<and> task_githubIssueId (h t) = task_githubIssueId t \<and>
          (task_status (h t) = Todo \<longrightarrow> task_status t = Todo))"

text \<open>
  The issue numbers the task rows carry, in row order; the store in which no two task rows
  carry the same issue number and no row that carries one is \<^verbatim>\<open>todo\<close>; and an issue
  number for which a task row exists that has been dispatched.
\<close>

definition issueIds :: "state \<Rightarrow> nat list" where
  "issueIds s = List.map_filter task_githubIssueId (tasks s)"

definition one_task_per_issue :: "state \<Rightarrow> bool" where
  "one_task_per_issue s =
     (distinct (issueIds s) \<and>
      (\<forall>t \<in> set (tasks s). task_githubIssueId t \<noteq> None \<longrightarrow> task_status t \<noteq> Todo))"

definition dispatched :: "nat \<Rightarrow> state \<Rightarrow> bool" where
  "dispatched n s =
     (\<exists>t \<in> set (tasks s). task_githubIssueId t = Some n \<and> task_status t \<noteq> Todo)"


text \<open>The pairs of repository id and issue number the task rows carry, in row order.\<close>

definition issueKeys :: "state \<Rightarrow> (nat option \<times> nat) list" where
  "issueKeys s =
     List.map_filter (\<lambda>t. map_option (\<lambda>n. (task_repoId t, n)) (task_githubIssueId t)) (tasks s)"

section \<open>Names and paths\<close>


lemma of_char_digit_char: "d < 10 \<Longrightarrow> (of_char (digit_char d) :: nat) = 48 + d"
  unfolding digit_char_def by simp








lemma split_on_nonempty: "split_on c xs \<noteq> []"
  by (induction xs) (auto split: list.splits)









section \<open>Where a NUL character can be\<close>

lemma hasNul_Nil [simp]: "hasNul [] = False"
  by (simp add: hasNul_def)

lemma hasNul_Cons [simp]: "hasNul (c # cs) = (c = CHR 0x00 \<or> hasNul cs)"
  by (auto simp add: hasNul_def)

lemma hasNul_append [simp]: "hasNul (a @ b) = (hasNul a \<or> hasNul b)"
  by (auto simp add: hasNul_def)

lemma digit_char_not_nul: "d < 10 \<Longrightarrow> digit_char d \<noteq> CHR 0x00"
proof
  assume d: "d < 10" and "digit_char d = CHR 0x00"
  then have "(of_char (digit_char d) :: nat) = of_char (CHR 0x00)"
    by simp
  then show False
    using d by (simp add: of_char_digit_char)
qed

lemma hasNul_string_of_nat [simp]: "\<not> hasNul (string_of_nat n)"
proof (induction n rule: string_of_nat.induct)
  case (1 n)
  show ?case
  proof (cases "n < 10")
    case True
    then show ?thesis
      using digit_char_not_nul [of n] by (subst string_of_nat.simps) simp
  next
    case False
    then show ?thesis
      using 1 digit_char_not_nul [of "n mod 10"] by (subst string_of_nat.simps) simp
  qed
qed

lemma hasNul_issueBranch [simp]: "\<not> hasNul (issueBranch issue)"
  by (simp add: issueBranch_def)

lemma split_on_chars: "a \<in> set (split_on c xs) \<Longrightarrow> set a \<subseteq> set xs"
proof (induction xs arbitrary: a)
  case Nil
  then show ?case by simp
next
  case (Cons x xs)
  show ?case
  proof (cases "x = c")
    case True
    then show ?thesis
      using Cons by auto
  next
    case False
    obtain p ps where sp: "split_on c xs = p # ps"
      using split_on_nonempty [of c xs] by (cases "split_on c xs") auto
    have "set p \<subseteq> set xs" "\<And>q. q \<in> set ps \<Longrightarrow> set q \<subseteq> set xs"
      using Cons.IH sp by auto
    then show ?thesis
      using Cons.prems False sp by auto
  qed
qed

lemma normalize_step_segs:
  "set (normalize_step ab res seg) \<subseteq> set res \<union> {seg, ''..''}"
  unfolding normalize_step_def
  by (auto dest: in_set_butlastD)

lemma foldl_normalize_step_segs:
  "set (foldl (normalize_step ab) acc segs) \<subseteq> set acc \<union> set segs \<union> {''..''}"
proof (induction segs arbitrary: acc)
  case Nil
  then show ?case by auto
next
  case (Cons seg segs)
  show ?case
    using Cons.IH [of "normalize_step ab acc seg"] normalize_step_segs [of ab acc seg]
    by auto
qed

lemma js_join_chars: "set (js_join sep xs) \<subseteq> set sep \<union> \<Union> (set ` set xs)"
  by (induction sep xs rule: js_join.induct) auto

lemma normalizeString_chars:
  "set (normalizeString p ab) \<subseteq> set p \<union> {CHR ''/'', CHR ''.''}"
proof
  fix x
  assume "x \<in> set (normalizeString p ab)"
  then have "x \<in> set ''/'' \<union> \<Union> (set ` set (foldl (normalize_step ab) [] (split_on CHR ''/'' p)))"
    using js_join_chars [of "''/''" "foldl (normalize_step ab) [] (split_on CHR ''/'' p)"]
    unfolding normalizeString_def by blast
  then consider "x = CHR ''/''"
    | seg where "seg \<in> set (foldl (normalize_step ab) [] (split_on CHR ''/'' p))" "x \<in> set seg"
    by auto
  then show "x \<in> set p \<union> {CHR ''/'', CHR ''.''}"
  proof cases
    case 1
    then show ?thesis by simp
  next
    case 2
    then have "seg \<in> set (split_on CHR ''/'' p) \<or> seg = ''..''"
      using foldl_normalize_step_segs [of ab "[]" "split_on CHR ''/'' p"] by auto
    then show ?thesis
      using 2(2) split_on_chars [of seg "CHR ''/''" p] by auto
  qed
qed

lemma path_normalize_chars: "set (path_normalize p) \<subseteq> set p \<union> {CHR ''/'', CHR ''.''}"
  using normalizeString_chars [of p "hd p \<noteq> CHR ''/''"]
  unfolding path_normalize_def Let_def
  by auto

lemma path_join_chars: "set (path_join a b) \<subseteq> set a \<union> set b \<union> {CHR ''/'', CHR ''.''}"
proof -
  have "set (js_join ''/'' (filter truthy [a, b])) \<subseteq> set a \<union> set b \<union> {CHR ''/''}"
    using js_join_chars [of "''/''" "filter truthy [a, b]"] by auto
  then show ?thesis
    using path_normalize_chars [of "js_join ''/'' (filter truthy [a, b])"]
    unfolding path_join_def Let_def
    by auto
qed

lemma hasNul_path_join: "\<not> hasNul a \<Longrightarrow> \<not> hasNul b \<Longrightarrow> \<not> hasNul (path_join a b)"
  using path_join_chars [of a b] unfolding hasNul_def by auto

lemma hasNul_issueRepoDir:
  "\<not> hasNul (ec_workDir config) \<Longrightarrow> \<not> hasNul (rc_owner rc) \<Longrightarrow> \<not> hasNul (rc_repo rc) \<Longrightarrow>
   \<not> hasNul (issueRepoDir config rc issue)"
  unfolding issueRepoDir_def workspaceName_def
  by (rule hasNul_path_join) simp_all

section \<open>The agent runner\<close>

lemma spawnSyncChecked_accepted:
  "spawnArgsError cmd args opts = None \<Longrightarrow>
   spawnSyncChecked w cmd args opts s =
     (Inr (w_spawnSync w (calls s) cmd args opts), record_call (SpawnSync cmd args opts) s)"
  by (simp add: spawnSyncChecked_def spawnSync_def)

lemma spawnSyncChecked_refused:
  "spawnArgsError cmd args opts = Some e \<Longrightarrow> spawnSyncChecked w cmd args opts s = (Inl e, s)"
  by (simp add: spawnSyncChecked_def)

lemma runAgent_accepted:
  "agentArgsError input = None \<Longrightarrow>
   runAgent w input s =
     (Inr (agentResult (spawnAnswer w input s)),
      record_call (SpawnSync (agentBinary input) (buildArgs input) (agentSpawnOptions input)) s)"
  by (simp add: runAgent_def agentArgsError_def spawnSyncChecked_accepted spawnAnswer_def)

lemma runAgent_refused: "agentArgsError input = Some e \<Longrightarrow> runAgent w input s = (Inl e, s)"
  by (simp add: runAgent_def agentArgsError_def spawnSyncChecked_refused)




lemma spawnAnswer_spawning [simp]: "spawnAnswer (spawning r) input s = r"
  by (simp add: spawnAnswer_def spawning_def)

lemma hasNul_buildPrompt:
  "hasNul (buildPrompt title body branch) \<longleftrightarrow>
     hasNul title \<or> (case body of Some b \<Rightarrow> hasNul b | None \<Rightarrow> False) \<or> hasNul branch"
  by (simp add: buildPrompt_def nl_def truthy_def split: option.splits)

lemma runAgent_eval:
  "runAgent w input s =
     (case agentArgsError input of
        Some e \<Rightarrow> (Inl e, s)
      | None \<Rightarrow>
          (Inr (agentResult (w_spawnSync w (calls s) (agentBinary input) (buildArgs input)
                               (agentSpawnOptions input))),
           record_call (SpawnSync (agentBinary input) (buildArgs input) (agentSpawnOptions input)) s))"
  by (cases "agentArgsError input")
     (simp_all add: runAgent_accepted runAgent_refused spawnAnswer_def)

text \<open>The spawn of the agent as the engine of the worked examples configures it is accepted.\<close>

lemma agentArgsError_claude:
  "ac_provider (ari_config input) = Claude \<Longrightarrow> ac_binary (ari_config input) = None \<Longrightarrow>
   ac_model (ari_config input) = None \<Longrightarrow> ac_extraArgs (ari_config input) = None \<Longrightarrow>
   ac_timeoutMs (ari_config input) = None \<Longrightarrow> ari_issueBody input = None \<Longrightarrow>
   \<not> hasNul (ari_issueTitle input) \<Longrightarrow> \<not> hasNul (ari_repoDir input) \<Longrightarrow>
   \<not> hasNul (ari_branch input) \<Longrightarrow>
   agentArgsError input = None"
  by (simp add: agentArgsError_def spawnArgsError_def validTimeout_def agentBinary_def
        buildArgs_def hasNul_buildPrompt agentSpawnOptions_def defaultTimeoutMs_def
        provider_name_def Let_def)

lemma agentArgsError_agentInput: "agentArgsError agentInput = None"
  by (simp add: agentArgsError_def spawnArgsError_def validTimeout_def agentBinary_def
        buildArgs_def hasNul_buildPrompt agentSpawnOptions_def defaultTimeoutMs_def provider_name_def
        agentInput_def claudeConfig_def Let_def)

text \<open>
  Claim C4, as the code has it. \<^verbatim>\<open>runAgent\<close> calls \<^verbatim>\<open>spawnSync\<close> in no \<^verbatim>\<open>try\<close>. When
  \<^verbatim>\<open>spawnSync\<close> refuses the arguments (an empty binary; a NUL character in the binary, in
  an argument or in the working directory; a timeout that is not a non-negative whole
  number), its exception leaves \<^verbatim>\<open>runAgent\<close> and nothing has been started. On every other
  input \<^verbatim>\<open>runAgent\<close> returns a result, of which the following holds. Its \<^verbatim>\<open>success\<close> is true
  exactly when \<^verbatim>\<open>spawnSync\<close> reported no error and the exit status is 0; equivalently,
  exactly when its \<^verbatim>\<open>exitCode\<close> is 0. When \<^verbatim>\<open>spawnSync\<close> reported an error (a spawn error,
  a timeout, a buffer overflow), \<^verbatim>\<open>success\<close> is false, \<^verbatim>\<open>exitCode\<close> is \<^verbatim>\<open>null\<close> and \<^verbatim>\<open>error\<close>
  is the message of that error, whatever the exit status. When it reported none,
  \<^verbatim>\<open>exitCode\<close> is the exit status, so that a non-zero exit gives \<^verbatim>\<open>success = false\<close>.
\<close>

theorem runAgent_success:
  "(\<forall>e. agentArgsError input = Some e \<longrightarrow> runAgent w input s = (Inl e, s))
   \<and> (agentArgsError input = None \<longrightarrow>
        (\<exists>r. fst (runAgent w input s) = Inr r
           \<and> (arr_success r \<longleftrightarrow>
                sp_error (spawnAnswer w input s) = None \<and> sp_status (spawnAnswer w input s) = Some 0)
           \<and> (arr_success r \<longleftrightarrow> arr_exitCode r = Some 0)
           \<and> (sp_error (spawnAnswer w input s) \<noteq> None \<longrightarrow>
                \<not> arr_success r \<and> arr_exitCode r = None
                \<and> arr_error r = sp_error (spawnAnswer w input s))
           \<and> (sp_error (spawnAnswer w input s) = None \<longrightarrow>
                arr_exitCode r = sp_status (spawnAnswer w input s))))"
proof -
  have "runAgent w input s = (Inl e, s)" if "agentArgsError input = Some e" for e
    using that by (rule runAgent_refused)
  moreover have "fst (runAgent w input s) = Inr (agentResult (spawnAnswer w input s))"
    if "agentArgsError input = None"
    using that by (simp add: runAgent_accepted)
  moreover have
    "(arr_success (agentResult a) \<longleftrightarrow> sp_error a = None \<and> sp_status a = Some 0)
     \<and> (arr_success (agentResult a) \<longleftrightarrow> arr_exitCode (agentResult a) = Some 0)
     \<and> (sp_error a \<noteq> None \<longrightarrow>
          \<not> arr_success (agentResult a) \<and> arr_exitCode (agentResult a) = None
          \<and> arr_error (agentResult a) = sp_error a)
     \<and> (sp_error a = None \<longrightarrow> arr_exitCode (agentResult a) = sp_status a)" for a
    by (simp add: agentResult_def Let_def split: option.splits)
  ultimately show ?thesis by blast
qed

theorem runAgent_success_witness:
  "agentArgsError emptyBinary = Some (Error ''The argument file cannot be empty'')
   \<and> runAgent quietWorld emptyBinary emptyState
       = (Inl (Error ''The argument file cannot be empty''), emptyState)
   \<and> agentArgsError agentInput = None
   \<and> sp_error (spawnAnswer (spawning timedOutExitZero) agentInput emptyState) \<noteq> None
   \<and> sp_error (spawnAnswer (spawning exitTwo) agentInput emptyState) = None
   \<and> (\<exists>r. fst (runAgent (spawning bothStreams) agentInput emptyState) = Inr r
          \<and> arr_success r \<and> arr_exitCode r = Some 0)
   \<and> (\<exists>r. fst (runAgent (spawning exitTwo) agentInput emptyState) = Inr r
          \<and> \<not> arr_success r \<and> arr_exitCode r = Some 2)
   \<and> (\<exists>r. fst (runAgent (spawning timedOutExitZero) agentInput emptyState) = Inr r
          \<and> \<not> arr_success r \<and> arr_exitCode r = None
          \<and> arr_error r = Some ''spawnSync claude ETIMEDOUT'')"
proof -
  have e: "agentArgsError emptyBinary = Some (Error ''The argument file cannot be empty'')"
    by (simp add: agentArgsError_def spawnArgsError_def agentBinary_def
          emptyBinary_def agentInput_def claudeConfig_def)
  have a: "agentArgsError agentInput = None"
    by (rule agentArgsError_agentInput)
  have b: "sp_error (spawnAnswer (spawning bothStreams) agentInput emptyState) = None"
    "sp_status (spawnAnswer (spawning bothStreams) agentInput emptyState) = Some 0"
    "sp_error (spawnAnswer (spawning exitTwo) agentInput emptyState) = None"
    "sp_status (spawnAnswer (spawning exitTwo) agentInput emptyState) = Some 2"
    "sp_error (spawnAnswer (spawning timedOutExitZero) agentInput emptyState)
       = Some ''spawnSync claude ETIMEDOUT''"
    by (simp_all add: bothStreams_def exitTwo_def timedOutExitZero_def)
  show ?thesis
    using runAgent_success [of emptyBinary quietWorld emptyState]
          runAgent_success [of agentInput "spawning bothStreams" emptyState]
          runAgent_success [of agentInput "spawning exitTwo" emptyState]
          runAgent_success [of agentInput "spawning timedOutExitZero" emptyState]
    unfolding e a b
    by (simp; metis)
qed

text \<open>
  The claim as stated fails in both halves. Not every input gives a result: with the
  binary configured as the empty string, with a NUL character in the issue title, with a
  timeout that is not a number, and with a NUL character in the binary or in the working
  directory, \<^verbatim>\<open>runAgent\<close> throws. And \<^verbatim>\<open>success\<close> is not the exit code being 0: when
  \<^verbatim>\<open>spawnSync\<close> reports a timeout although the child exited with code 0, the exit status
  is 0 and \<^verbatim>\<open>success\<close> is false.
\<close>

theorem runAgent_success_counterexample:
  "fst (runAgent quietWorld emptyBinary emptyState)
     = Inl (Error ''The argument file cannot be empty'')
   \<and> fst (runAgent quietWorld nulTitle emptyState)
     = Inl (Error ''The argument args must be a string without null bytes'')
   \<and> fst (runAgent quietWorld badTimeout emptyState)
     = Inl (Error ''The value of timeout is out of range'')
   \<and> fst (runAgent quietWorld nulBinary emptyState)
     = Inl (Error ''The argument file must be a string without null bytes'')
   \<and> fst (runAgent quietWorld nulRepoDir emptyState)
     = Inl (Error ''The argument options.cwd must be a string without null bytes'')
   \<and> sp_status (spawnAnswer (spawning timedOutExitZero) agentInput emptyState) = Some 0
   \<and> fst (runAgent (spawning timedOutExitZero) agentInput emptyState)
     = Inr (agentResult timedOutExitZero)
   \<and> \<not> arr_success (agentResult timedOutExitZero)"
proof -
  have 1: "agentArgsError emptyBinary = Some (Error ''The argument file cannot be empty'')"
    by (simp add: agentArgsError_def spawnArgsError_def agentBinary_def
          emptyBinary_def agentInput_def claudeConfig_def)
  have 2: "agentArgsError nulTitle
             = Some (Error ''The argument args must be a string without null bytes'')"
    by (simp add: agentArgsError_def spawnArgsError_def agentBinary_def
          buildArgs_def hasNul_buildPrompt provider_name_def nulTitle_def agentInput_def
          claudeConfig_def Let_def)
  have 3: "agentArgsError badTimeout = Some (Error ''The value of timeout is out of range'')"
    by (simp add: agentArgsError_def spawnArgsError_def validTimeout_def agentBinary_def
          buildArgs_def hasNul_buildPrompt agentSpawnOptions_def provider_name_def badTimeout_def
          agentInput_def claudeConfig_def Let_def)
  have 4: "agentArgsError nulBinary
             = Some (Error ''The argument file must be a string without null bytes'')"
    by (simp add: agentArgsError_def spawnArgsError_def agentBinary_def
          nulBinary_def agentInput_def claudeConfig_def)
  have 5: "agentArgsError nulRepoDir
             = Some (Error ''The argument options.cwd must be a string without null bytes'')"
    by (simp add: agentArgsError_def spawnArgsError_def agentBinary_def
          buildArgs_def hasNul_buildPrompt agentSpawnOptions_def provider_name_def nulRepoDir_def
          agentInput_def claudeConfig_def Let_def)
  show ?thesis
    by (simp add: runAgent_refused [OF 1] runAgent_refused [OF 2] runAgent_refused [OF 3]
          runAgent_refused [OF 4] runAgent_refused [OF 5]
          runAgent_accepted [OF agentArgsError_agentInput] agentResult_def timedOutExitZero_def)
qed




section \<open>Steps that leave the store alone\<close>

lemma outside_only_refl [simp]: "outside_only s s"
  unfolding outside_only_def by (rule exI [of _ "[]"]) simp

lemma outside_only_trans: "outside_only s s1 \<Longrightarrow> outside_only s1 s2 \<Longrightarrow> outside_only s s2"
  unfolding outside_only_def
proof (elim exE conjE)
  fix cs ds
  assume a: "s1 = s\<lparr>calls := calls s @ cs\<rparr>" "\<forall>c\<in>set cs. \<not> isListIssues c"
     and b: "s2 = s1\<lparr>calls := calls s1 @ ds\<rparr>" "\<forall>c\<in>set ds. \<not> isListIssues c"
  show "\<exists>cs. s2 = s\<lparr>calls := calls s @ cs\<rparr> \<and> (\<forall>c\<in>set cs. \<not> isListIssues c)"
    using a b by (intro exI [of _ "cs @ ds"]) auto
qed

lemma outside_only_record_call:
  "\<not> isListIssues c \<Longrightarrow> outside_only s (record_call c s)"
  unfolding outside_only_def record_call_def by (rule exI [of _ "[c]"]) simp

lemma outside_only_step:
  "outside_only s s1 \<Longrightarrow> \<not> isListIssues c \<Longrightarrow> outside_only s (record_call c s1)"
  by (blast intro: outside_only_trans outside_only_record_call)

lemma outside_only_fields:
  assumes "outside_only s s'"
  shows "repos s' = repos s" "tasks s' = tasks s" "agentRuns s' = agentRuns s"
    "nextRepoId s' = nextRepoId s" "nextTaskId s' = nextTaskId s" "nextRunId s' = nextRunId s"
    "filter isListIssues (calls s') = filter isListIssues (calls s)"
    "\<exists>cs. calls s' = calls s @ cs"
  using assms unfolding outside_only_def by auto

lemma snd_addIssueLabel: "snd (addIssueLabel w owner repo n l s) = record_call (AddIssueLabel owner repo n l) s"
  by (simp add: addIssueLabel_def)
lemma snd_addIssueComment: "snd (addIssueComment w owner repo n b s) = record_call (AddIssueComment owner repo n b) s"
  by (simp add: addIssueComment_def)
lemma snd_createBranch: "snd (createBranch w opts s) = record_call (CreateBranch opts) s"
  by (simp add: createBranch_def)
lemma snd_createPullRequest: "snd (createPullRequest w opts s) = record_call (CreatePullRequest opts) s"
  by (simp add: createPullRequest_def)
lemma snd_spawnSync: "snd (spawnSync w cmd args opts s) = record_call (SpawnSync cmd args opts) s"
  by (simp add: spawnSync_def)
lemma snd_mkdirSync: "snd (mkdirSync w d s) = record_call (MkdirSync d) s"
  by (simp add: mkdirSync_def)
lemma snd_nowISO: "snd (nowISO w s) = record_call DateNow s"
  by (simp add: nowISO_def)
lemma snd_listIssues: "snd (listIssues w owner repo l s) = record_call (ListIssues owner repo l) s"
  by (simp add: listIssues_def)

lemmas snd_prims = snd_addIssueLabel snd_addIssueComment snd_createBranch snd_createPullRequest
  snd_spawnSync snd_mkdirSync snd_nowISO

lemma not_list [simp]:
  "\<not> isListIssues (AddIssueLabel a b c d)" "\<not> isListIssues (AddIssueComment a b c d)"
  "\<not> isListIssues (CreateBranch x)" "\<not> isListIssues (CreatePullRequest y)"
  "\<not> isListIssues (SpawnSync e f g)" "\<not> isListIssues (MkdirSync h)" "\<not> isListIssues DateNow"
  "isListIssues (ListIssues a b l)"
  by (simp_all add: isListIssues_def)

lemma outside_only_cloneRepo: "outside_only s (snd (cloneRepo w opts s))"
  unfolding cloneRepo_def Let_def
  by (simp add: split_beta snd_spawnSync outside_only_record_call split: option.splits)

lemma outside_only_checkoutBranch: "outside_only s (snd (checkoutBranch w d b c s))"
  unfolding checkoutBranch_def Let_def
  by (simp add: split_beta snd_spawnSync outside_only_record_call split: option.splits)

lemma outside_only_runCommands: "outside_only s (snd (runCommands w d cmds s))"
proof (induction cmds arbitrary: s)
  case Nil
  show ?case by simp
next
  case (Cons a cmds)
  obtain cmd args where a: "a = (cmd, args)" by (cases a)
  let ?s1 = "record_call (SpawnSync cmd args (inheritOptions (Some d))) s"
  have st: "outside_only s ?s1"
    by (rule outside_only_record_call) simp
  have "outside_only s (snd (runCommands w d cmds ?s1))"
    using st Cons.IH [of ?s1] by (rule outside_only_trans)
  with st show ?case
    unfolding a runCommands.simps Let_def
    by (simp add: split_beta snd_spawnSync split: option.splits)
qed

lemma outside_only_commitAndPush: "outside_only s (snd (commitAndPush w d m b s))"
  unfolding commitAndPush_def by (rule outside_only_runCommands)

lemma outside_only_prepareWorkDir: "outside_only s (snd (prepareWorkDir w config rc issue s))"
proof -
  let ?s1 = "record_call (MkdirSync (ec_workDir config)) s"
  have m: "outside_only s ?s1"
    by (rule outside_only_record_call) simp
  have c: "outside_only s (snd (cloneRepo w opts ?s1))" for opts
    using m outside_only_cloneRepo by (rule outside_only_trans)
  have s1: "snd (mkdirSync w (ec_workDir config) s) = ?s1"
    by (rule snd_mkdirSync)
  show ?thesis
    unfolding prepareWorkDir_def Let_def
    by (simp add: split_beta s1 m c split: sum.splits)
qed

lemma outside_only_prepareBranch: "outside_only s (snd (prepareBranch w rc b d s))"
  unfolding prepareBranch_def Let_def
  by (simp add: split_beta snd_createBranch)
     (rule outside_only_trans [OF outside_only_record_call outside_only_checkoutBranch], simp)

lemma outside_only_spawnSyncChecked:
  "outside_only s (snd (spawnSyncChecked w cmd args opts s))"
  unfolding spawnSyncChecked_def Let_def
  by (simp add: split_beta snd_spawnSync outside_only_record_call split: option.splits)

lemma outside_only_runAgent: "outside_only s (snd (runAgent w input s))"
  unfolding runAgent_def
  using outside_only_spawnSyncChecked [of s w "agentBinary input" "buildArgs input" "agentSpawnOptions input"]
  by (auto split: prod.splits sum.splits)

lemma outside_only_executeAgent: "outside_only s (snd (executeAgent w config issue d b t s))"
  unfolding executeAgent_def
  using outside_only_runAgent [of s w "\<lparr> ari_taskId = t, ari_issueTitle = gi_title issue,
          ari_issueBody = gi_body issue, ari_repoDir = d, ari_branch = b,
          ari_config = ec_agent config \<rparr>"]
  by (auto split: prod.splits sum.splits)

section \<open>The shape of a pipeline run\<close>

lemma started_prepareWorkDir:
  "outside_only (record_call (MkdirSync (ec_workDir config)) s)
     (snd (prepareWorkDir w config rc issue s))"
  unfolding prepareWorkDir_def Let_def
  by (simp add: split_beta snd_mkdirSync outside_only_cloneRepo split: sum.splits)

lemma submitPullRequest_Inl:
  "fst (submitPullRequest w config result issue rc b tid rid s) = Inl e
   \<Longrightarrow> outside_only s (snd (submitPullRequest w config result issue rc b tid rid s))"
  unfolding submitPullRequest_def Let_def
  by (auto simp: split_beta snd_createPullRequest outside_only_commitAndPush
      intro: outside_only_step [OF outside_only_commitAndPush]
      split: sum.splits)

lemma closes_task_completed: "closes_task (taskCompleted pr)"
  by (simp add: closes_task_def taskCompleted_def)

lemma closes_task_failed: "closes_task taskFailed"
  by (simp add: closes_task_def taskFailed_def)

lemma closes_run_completed: "closes_run (runCompleted now out)"
  by (simp add: closes_run_def runCompleted_def)

lemma closes_run_failed: "closes_run (runFailed now msg)"
  by (simp add: closes_run_def runFailed_def)

lemma submitPullRequest_Inr:
  assumes "fst (submitPullRequest w config result issue rc b tid rid s) = Inr u"
  shows "\<exists>f g s1 c. outside_only s s1 \<and> \<not> isListIssues c \<and> closes_task f \<and> closes_run g \<and>
           snd (submitPullRequest w config result issue rc b tid rid s) =
             record_call c (updateAgentRuns g rid (updateTasks f tid s1))"
proof -
  let ?s1 = "snd (commitAndPush w (issueRepoDir config rc issue) (commitMessage issue) b s)"
  let ?s2 = "record_call (CreatePullRequest (pullRequestOptions issue rc b result)) ?s1"
  let ?s3 = "record_call DateNow ?s2"
  have o: "outside_only s ?s3"
    by (intro outside_only_step outside_only_commitAndPush) simp_all
  from assms obtain pr where
    "snd (submitPullRequest w config result issue rc b tid rid s) =
       record_call (AddIssueComment (rc_owner rc) (rc_repo rc) (gi_number issue) (doneComment pr))
         (updateAgentRuns (runCompleted (w_now w (calls ?s2)) (arr_output result)) rid
            (updateTasks (taskCompleted pr) tid ?s3))"
    unfolding submitPullRequest_def Let_def
    by (auto simp: split_beta snd_createPullRequest snd_nowISO snd_addIssueComment nowISO_def
        split: sum.splits)
  with o show ?thesis
    using closes_task_completed closes_run_completed
    by (metis not_list(2))
qed

lemma outside_only_from_start:
  "outside_only (record_call (MkdirSync d) s) s' \<Longrightarrow> outside_only s s'"
  by (rule outside_only_trans [OF outside_only_record_call]) simp_all

lemma pipelineSteps_Inl:
  assumes "fst (pipelineSteps w config tid rid issue rc s) = Inl e"
  shows "outside_only (record_call (MkdirSync (ec_workDir config)) s)
           (snd (pipelineSteps w config tid rid issue rc s))"
proof -
  let ?m = "record_call (MkdirSync (ec_workDir config)) s"
  let ?s1 = "snd (prepareWorkDir w config rc issue s)"
  have 1: "outside_only ?m ?s1" by (rule started_prepareWorkDir)
  have 2: "outside_only ?m (snd (prepareBranch w rc b d ?s1))" for b d
    by (rule outside_only_trans [OF 1 outside_only_prepareBranch])
  have 3: "outside_only ?m (snd (executeAgent w config issue d b tid (snd (prepareBranch w rc b d ?s1))))" for b d
    by (rule outside_only_trans [OF 2 outside_only_executeAgent])
  have 4: "fst (submitPullRequest w config r issue rc b tid rid s3) = Inl e \<Longrightarrow> outside_only ?m s3
       \<Longrightarrow> outside_only ?m (snd (submitPullRequest w config r issue rc b tid rid s3))" for r b s3
    by (blast intro: outside_only_trans submitPullRequest_Inl)
  show ?thesis
    using assms 1 2 3 4 unfolding pipelineSteps_def
    by (auto simp: split_beta split: sum.splits)
qed

lemma pipelineSteps_Inr:
  assumes "fst (pipelineSteps w config tid rid issue rc s) = Inr u"
  shows "\<exists>f g s1 c. outside_only (record_call (MkdirSync (ec_workDir config)) s) s1 \<and>
           \<not> isListIssues c \<and> closes_task f \<and> closes_run g \<and>
           snd (pipelineSteps w config tid rid issue rc s) =
             record_call c (updateAgentRuns g rid (updateTasks f tid s1))"
proof -
  let ?m = "record_call (MkdirSync (ec_workDir config)) s"
  let ?s1 = "snd (prepareWorkDir w config rc issue s)"
  have 1: "outside_only ?m ?s1" by (rule started_prepareWorkDir)
  have 2: "outside_only ?m (snd (prepareBranch w rc b d ?s1))" for b d
    by (rule outside_only_trans [OF 1 outside_only_prepareBranch])
  have 3: "outside_only ?m (snd (executeAgent w config issue d b tid (snd (prepareBranch w rc b d ?s1))))" for b d
    by (rule outside_only_trans [OF 2 outside_only_executeAgent])
  have 4: "\<exists>f g s1 c. outside_only ?m s1 \<and>
           \<not> isListIssues c \<and> closes_task f \<and> closes_run g \<and>
           snd (submitPullRequest w config r issue rc b tid rid s3) =
             record_call c (updateAgentRuns g rid (updateTasks f tid s1))"
    if "fst (submitPullRequest w config r issue rc b tid rid s3) = Inr u" "outside_only ?m s3"
    for r b s3
    using submitPullRequest_Inr [OF that(1)] that(2) by (blast intro: outside_only_trans)
  show ?thesis
    using assms 3 4 unfolding pipelineSteps_def
    by (auto simp: split_beta split: sum.splits)
qed

lemma recordFailure_shape:
  "\<exists>f g c. \<not> isListIssues c \<and> closes_task f \<and> closes_run g \<and>
     recordFailure w tid rid err issue rc s =
       record_call c (updateAgentRuns g rid (updateTasks f tid (record_call DateNow s)))"
  unfolding recordFailure_def Let_def
  apply (simp add: split_beta snd_nowISO snd_addIssueComment)
  using closes_task_failed closes_run_failed not_list(2) by blast

lemma createAgentRun_eq:
  "createAgentRun config tid s =
     (Inr (nextRunId s),
      s\<lparr>agentRuns := agentRuns s @ [(newAgentRun config tid)\<lparr>run_id := nextRunId s\<rparr>],
        nextRunId := Suc (nextRunId s)\<rparr>)"
  by (simp add: createAgentRun_def insertAgentRun_def requireFirst_def Let_def)

lemma runAgentForTask_shape:
  "\<exists>f g s1 c. fst (runAgentForTask w config tid issue rc s) = Inr () \<and>
     outside_only (record_call (MkdirSync (ec_workDir config)) (snd (createAgentRun config tid s))) s1 \<and>
     \<not> isListIssues c \<and> closes_task f \<and> closes_run g \<and>
     snd (runAgentForTask w config tid issue rc s) =
       record_call c (updateAgentRuns g (nextRunId s) (updateTasks f tid s1))"
proof -
  let ?s0 = "snd (createAgentRun config tid s)"
  let ?rid = "nextRunId s"
  let ?p = "pipelineSteps w config tid ?rid issue rc ?s0"
  show ?thesis
  proof (cases "fst ?p")
    case (Inl e)
    have o: "outside_only (record_call (MkdirSync (ec_workDir config)) ?s0) (record_call DateNow (snd ?p))"
      by (rule outside_only_step [OF pipelineSteps_Inl [OF Inl]]) simp
    have r: "runAgentForTask w config tid issue rc s = (Inr (), recordFailure w tid ?rid e issue rc (snd ?p))"
      using Inl by (simp add: runAgentForTask_def createAgentRun_eq split_beta)
    show ?thesis
      using recordFailure_shape [of w tid ?rid e issue rc "snd ?p"] o unfolding r
      by (metis fst_conv snd_conv)
  next
    case (Inr u)
    have r: "runAgentForTask w config tid issue rc s = (Inr (), snd ?p)"
      using Inr by (simp add: runAgentForTask_def createAgentRun_eq split_beta)
    show ?thesis
      using pipelineSteps_Inr [OF Inr] unfolding r by (metis fst_conv snd_conv)
  qed
qed

lemma runAgentForTask_effects:
  fixes w config tid issue rc s
  defines "s' \<equiv> snd (runAgentForTask w config tid issue rc s)"
  shows "\<exists>f g cs. closes_task f \<and> closes_run g \<and>
     fst (runAgentForTask w config tid issue rc s) = Inr () \<and>
     tasks s' = map (\<lambda>t. if task_id t = tid then f t else t) (tasks s) \<and>
     agentRuns s' = map (\<lambda>r. if run_id r = nextRunId s then g r else r)
                      (agentRuns s @ [(newAgentRun config tid)\<lparr>run_id := nextRunId s\<rparr>]) \<and>
     repos s' = repos s \<and> nextRepoId s' = nextRepoId s \<and> nextTaskId s' = nextTaskId s \<and>
     nextRunId s' = Suc (nextRunId s) \<and>
     calls s' = calls s @ MkdirSync (ec_workDir config) # cs \<and>
     (\<forall>c \<in> set cs. \<not> isListIssues c)"
proof -
  obtain f g s1 c where h: "fst (runAgentForTask w config tid issue rc s) = Inr ()"
     "outside_only (record_call (MkdirSync (ec_workDir config)) (snd (createAgentRun config tid s))) s1"
     "\<not> isListIssues c" "closes_task f" "closes_run g"
     "s' = record_call c (updateAgentRuns g (nextRunId s) (updateTasks f tid s1))"
    using runAgentForTask_shape [of w config tid issue rc s] unfolding s'_def by blast
  from h(2) obtain ds where ds: "\<forall>d \<in> set ds. \<not> isListIssues d"
    "s1 = (record_call (MkdirSync (ec_workDir config)) (snd (createAgentRun config tid s)))
            \<lparr>calls := calls (record_call (MkdirSync (ec_workDir config)) (snd (createAgentRun config tid s))) @ ds\<rparr>"
    unfolding outside_only_def by blast
  have "calls s' = calls s @ MkdirSync (ec_workDir config) # (ds @ [c])"
    unfolding h(6) ds(2)
    by (simp add: record_call_def updateAgentRuns_def updateTasks_def createAgentRun_eq)
  moreover have "\<forall>x \<in> set (ds @ [c]). \<not> isListIssues x"
    using ds(1) h(3) by simp
  moreover have "tasks s' = map (\<lambda>t. if task_id t = tid then f t else t) (tasks s)"
    "agentRuns s' = map (\<lambda>r. if run_id r = nextRunId s then g r else r)
                      (agentRuns s @ [(newAgentRun config tid)\<lparr>run_id := nextRunId s\<rparr>])"
    "repos s' = repos s" "nextRepoId s' = nextRepoId s" "nextTaskId s' = nextTaskId s"
    "nextRunId s' = Suc (nextRunId s)"
    unfolding h(6) ds(2)
    by (simp_all add: record_call_def updateAgentRuns_def updateTasks_def createAgentRun_eq)
  ultimately show ?thesis
    using h(1,4,5) by blast
qed

lemma runAgentForTask_closed:
  "fst (runAgentForTask w config tid issue rc s) = Inr ()
   \<and> map task_id (tasks (snd (runAgentForTask w config tid issue rc s))) = map task_id (tasks s)
   \<and> (\<forall>t \<in> set (tasks (snd (runAgentForTask w config tid issue rc s))).
         task_id t = tid \<longrightarrow> task_status t = Completed \<or> task_status t = Failed)
   \<and> length (agentRuns (snd (runAgentForTask w config tid issue rc s))) = Suc (length (agentRuns s))
   \<and> run_id (last (agentRuns (snd (runAgentForTask w config tid issue rc s)))) = nextRunId s
   \<and> run_taskId (last (agentRuns (snd (runAgentForTask w config tid issue rc s)))) = tid
   \<and> (\<forall>r \<in> set (agentRuns (snd (runAgentForTask w config tid issue rc s))).
         run_id r = nextRunId s \<longrightarrow> run_status r = Run_completed \<or> run_status r = Run_failed)"
proof -
  obtain f g where h: "closes_task f" "closes_run g"
     "fst (runAgentForTask w config tid issue rc s) = Inr ()"
     "tasks (snd (runAgentForTask w config tid issue rc s)) =
        map (\<lambda>t. if task_id t = tid then f t else t) (tasks s)"
     "agentRuns (snd (runAgentForTask w config tid issue rc s)) =
        map (\<lambda>r. if run_id r = nextRunId s then g r else r)
          (agentRuns s @ [(newAgentRun config tid)\<lparr>run_id := nextRunId s\<rparr>])"
    using runAgentForTask_effects [of w config tid issue rc s] by blast
  have f: "task_id (f t) = task_id t" "task_status (f t) = Completed \<or> task_status (f t) = Failed" for t
    using h(1) by (auto simp: closes_task_def)
  have g: "run_id (g r) = run_id r" "run_taskId (g r) = run_taskId r"
      "run_status (g r) = Run_completed \<or> run_status (g r) = Run_failed" for r
    using h(2) by (auto simp: closes_run_def)
  have 1: "map task_id (tasks (snd (runAgentForTask w config tid issue rc s))) = map task_id (tasks s)"
    unfolding h(4) by (simp add: f(1) comp_def if_distrib [of task_id] cong: if_cong)
  have 2: "\<forall>t \<in> set (tasks (snd (runAgentForTask w config tid issue rc s))).
         task_id t = tid \<longrightarrow> task_status t = Completed \<or> task_status t = Failed"
    unfolding h(4) using f by auto
  have 3: "length (agentRuns (snd (runAgentForTask w config tid issue rc s))) = Suc (length (agentRuns s))"
    unfolding h(5) by simp
  have 4: "last (agentRuns (snd (runAgentForTask w config tid issue rc s))) =
             g ((newAgentRun config tid)\<lparr>run_id := nextRunId s\<rparr>)"
    unfolding h(5) by simp
  have 5: "\<forall>r \<in> set (agentRuns (snd (runAgentForTask w config tid issue rc s))).
         run_id r = nextRunId s \<longrightarrow> run_status r = Run_completed \<or> run_status r = Run_failed"
    unfolding h(5) using g by auto
  show ?thesis
    using h(3) 1 2 3 5 unfolding 4 by (simp add: g newAgentRun_def)
qed

lemma prepareWorkDir_names:
  "fst (prepareWorkDir w config rc issue s) = Inr (b, d)
   \<Longrightarrow> b = issueBranch issue \<and> d = issueRepoDir config rc issue"
  unfolding prepareWorkDir_def Let_def
  by (auto simp: split_beta split: sum.splits)

lemma pipelineSteps_branch:
  "pipelineSteps w config tid rid issue rc s =
     (case prepareWorkDir w config rc issue s of
        (Inl e, s1) \<Rightarrow> (Inl e, s1)
      | (Inr _, s1) \<Rightarrow>
          (case prepareBranch w rc (issueBranch issue) (issueRepoDir config rc issue) s1 of
             (Inl e, s2) \<Rightarrow> (Inl e, s2)
           | (Inr _, s2) \<Rightarrow>
               (case executeAgent w config issue (issueRepoDir config rc issue) (issueBranch issue) tid s2 of
                  (Inl e, s3) \<Rightarrow> (Inl e, s3)
                | (Inr result, s3) \<Rightarrow>
                    submitPullRequest w config result issue rc (issueBranch issue) tid rid s3)))"
proof (cases "fst (prepareWorkDir w config rc issue s)")
  case (Inl e)
  then show ?thesis
    by (simp add: pipelineSteps_def split_beta)
next
  case (Inr bd)
  obtain b d where bd: "bd = (b, d)" by (cases bd)
  from Inr have names: "b = issueBranch issue" "d = issueRepoDir config rc issue"
    using prepareWorkDir_names [of w config rc issue s b d] unfolding bd by simp_all
  have eq: "prepareWorkDir w config rc issue s =
      (Inr (issueBranch issue, issueRepoDir config rc issue), snd (prepareWorkDir w config rc issue s))"
    using Inr unfolding bd names by (metis prod.collapse)
  show ?thesis
    unfolding pipelineSteps_def by (subst (1 2) eq) simp
qed

section \<open>Unfolding a concrete run\<close>

lemmas run_defs = runAgentForTask_def createAgentRun_eq pipelineSteps_def prepareWorkDir_def
  mkdirSync_def cloneRepo_def spawnSync_def recordFailure_def nowISO_def addIssueComment_def
  updateTasks_def updateAgentRuns_def record_call_def prepareBranch_def createBranch_def
  checkoutBranch_def executeAgent_def runAgent_eval agentArgsError_claude hasNul_issueRepoDir
  agentResult_def submitPullRequest_def
  commitAndPush_def createPullRequest_def

section \<open>The three ways through the reconciliation of an issue\<close>

lemma existingTask_find:
  "existingTask issue s = find (\<lambda>t. task_githubIssueId t = Some (gi_number issue)) (tasks s)"
proof -
  have "(case take 1 (filter P xs) of [] \<Rightarrow> None | t # _ \<Rightarrow> Some t) = find P xs" for P :: "Task \<Rightarrow> bool" and xs
    by (induction xs) auto
  then show ?thesis
    by (simp add: existingTask_def selectTasksByIssue_def)
qed

lemma insertNewTask_eq:
  "insertNewTask issue rr s =
     (Inr (nextTaskId s),
      s\<lparr>tasks := tasks s @ [(newTask issue rr)\<lparr>task_id := nextTaskId s\<rparr>],
        nextTaskId := Suc (nextTaskId s)\<rparr>)"
  by (simp add: insertNewTask_def insertTask_def requireFirst_def Let_def)

lemma notifyWorking_eq:
  "notifyWorking w rc issue tid s =
     record_call (AddIssueComment (rc_owner rc) (rc_repo rc) (gi_number issue) (workingComment tid))
       (record_call (AddIssueLabel (rc_owner rc) (rc_repo rc) (gi_number issue) ''loom:working'') s)"
  by (simp add: notifyWorking_def Let_def split_beta snd_addIssueLabel snd_addIssueComment)

lemma handleIssue_skip:
  "alreadyHandled (existingTask issue s) \<Longrightarrow> handleIssue w config issue rr rc s = (Inr (), s)"
  by (simp add: handleIssue_def)

lemma handleIssue_retry:
  assumes "existingTask issue s = Some t" "task_status t = Failed"
  shows "handleIssue w config issue rr rc s =
           runAgentForTask w config (task_id t) issue rc
             (notifyWorking w rc issue (task_id t) (updateTasks (taskRetried rr) (task_id t) s))"
  using assms by (simp add: handleIssue_def alreadyHandled_def resolveTaskId_def)

lemma handleIssue_insert:
  assumes "\<not> alreadyHandled (existingTask issue s)"
    "\<forall>t. existingTask issue s = Some t \<longrightarrow> task_status t \<noteq> Failed"
  shows "handleIssue w config issue rr rc s =
           runAgentForTask w config (nextTaskId s) issue rc
             (notifyWorking w rc issue (nextTaskId s) (snd (insertNewTask issue rr s)))"
  using assms
  by (auto simp: handleIssue_def resolveTaskId_def insertNewTask_eq split: option.splits)

lemma handleIssue_dispatch:
  assumes "\<not> alreadyHandled (existingTask issue s)"
  shows "\<exists>tid s1. fst (resolveTaskId (existingTask issue s) issue rr s) = Inr tid \<and>
           s1 = snd (resolveTaskId (existingTask issue s) issue rr s) \<and>
           agentRuns s1 = agentRuns s \<and> nextRunId s1 = nextRunId s \<and> calls s1 = calls s \<and>
           repos s1 = repos s \<and> nextRepoId s1 = nextRepoId s \<and>
           handleIssue w config issue rr rc s =
             runAgentForTask w config tid issue rc (notifyWorking w rc issue tid s1)"
  using assms
  by (auto simp: handleIssue_def resolveTaskId_def insertNewTask_eq updateTasks_def
      split: option.splits)
lemma keeps_task_id [simp]: "keeps_task (\<lambda>t. t)"
  by (simp add: keeps_task_def)

lemma keeps_task_comp: "keeps_task f \<Longrightarrow> keeps_task g \<Longrightarrow> keeps_task (\<lambda>t. f (g t))"
  unfolding keeps_task_def by metis

lemma keeps_task_closes: "closes_task f \<Longrightarrow> keeps_task (\<lambda>t. if task_id t = tid then f t else t)"
proof -
  assume c: "closes_task f"
  have "task_status (f t) \<noteq> Todo" for t
    using c unfolding closes_task_def by (metis TaskStatus.distinct(3,5))
  with c show ?thesis
    by (simp add: keeps_task_def closes_task_def)
qed

lemma keeps_task_retried: "keeps_task (\<lambda>t. if task_id t = tid then taskRetried rr t else t)"
  by (simp add: keeps_task_def taskRetried_def)

lemma handleIssue_summary:
  fixes w config issue rr rc s
  defines "s' \<equiv> snd (handleIssue w config issue rr rc s)"
  shows "fst (handleIssue w config issue rr rc s) = Inr () \<and>
     repos s' = repos s \<and> nextRepoId s' = nextRepoId s \<and>
     filter isListIssues (calls s') = filter isListIssues (calls s) \<and>
     (\<exists>h new. keeps_task h \<and> tasks s' = map h (tasks s @ new) \<and>
        (new = [] \<and> (\<exists>t. existingTask issue s = Some t \<and> task_status t \<noteq> Todo) \<or>
         new = [(newTask issue rr)\<lparr>task_id := nextTaskId s\<rparr>] \<and>
           (\<forall>t. existingTask issue s = Some t \<longrightarrow> task_status t = Todo)))"
proof (cases "alreadyHandled (existingTask issue s)")
  case True
  then have eq: "handleIssue w config issue rr rc s = (Inr (), s)"
    by (rule handleIssue_skip)
  from True have ex: "\<exists>t. existingTask issue s = Some t \<and> task_status t \<noteq> Todo"
    by (cases "existingTask issue s") (auto simp: alreadyHandled_def)
  have "keeps_task (\<lambda>t. t) \<and> tasks s = map (\<lambda>t. t) (tasks s @ []) \<and>
          ([] = [] \<and> (\<exists>t. existingTask issue s = Some t \<and> task_status t \<noteq> Todo) \<or>
           [] = [(newTask issue rr)\<lparr>task_id := nextTaskId s\<rparr>] \<and>
           (\<forall>t. existingTask issue s = Some t \<longrightarrow> task_status t = Todo))"
    using ex by simp
  then have "\<exists>h new. keeps_task h \<and> tasks s = map h (tasks s @ new) \<and>
        (new = [] \<and> (\<exists>t. existingTask issue s = Some t \<and> task_status t \<noteq> Todo) \<or>
         new = [(newTask issue rr)\<lparr>task_id := nextTaskId s\<rparr>] \<and>
           (\<forall>t. existingTask issue s = Some t \<longrightarrow> task_status t = Todo))"
    by (intro exI [of _ "\<lambda>t. t"] exI [of _ "[]"])
  then show ?thesis
    unfolding s'_def eq by simp
next
  case False
  obtain tid s1 where d: "fst (resolveTaskId (existingTask issue s) issue rr s) = Inr tid"
     "s1 = snd (resolveTaskId (existingTask issue s) issue rr s)"
     "calls s1 = calls s" "repos s1 = repos s" "nextRepoId s1 = nextRepoId s"
     "handleIssue w config issue rr rc s =
        runAgentForTask w config tid issue rc (notifyWorking w rc issue tid s1)"
    using handleIssue_dispatch [OF False, of rr w config rc] by blast
  let ?s2 = "notifyWorking w rc issue tid s1"
  have n: "tasks ?s2 = tasks s1" "repos ?s2 = repos s" "nextRepoId ?s2 = nextRepoId s"
    "filter isListIssues (calls ?s2) = filter isListIssues (calls s)"
    by (simp_all add: notifyWorking_eq record_call_def d(3,4,5))
  obtain f cs where e: "closes_task f"
     "fst (runAgentForTask w config tid issue rc ?s2) = Inr ()"
     "tasks (snd (runAgentForTask w config tid issue rc ?s2)) =
        map (\<lambda>t. if task_id t = tid then f t else t) (tasks ?s2)"
     "repos (snd (runAgentForTask w config tid issue rc ?s2)) = repos ?s2"
     "nextRepoId (snd (runAgentForTask w config tid issue rc ?s2)) = nextRepoId ?s2"
     "calls (snd (runAgentForTask w config tid issue rc ?s2)) =
        calls ?s2 @ MkdirSync (ec_workDir config) # cs"
     "\<forall>c \<in> set cs. \<not> isListIssues c"
    using runAgentForTask_effects [of w config tid issue rc ?s2] by blast
  have calls: "filter isListIssues (calls s') = filter isListIssues (calls s)"
    unfolding s'_def d(6) e(6) using e(7) n(4) by (simp add: filter_empty_conv)
  have k: "keeps_task (\<lambda>t. if task_id t = tid then f t else t)"
    using e(1) by (rule keeps_task_closes)
  have tasks1: "\<exists>h new. keeps_task h \<and> tasks s1 = map h (tasks s @ new) \<and>
        (new = [] \<and> (\<exists>t. existingTask issue s = Some t \<and> task_status t \<noteq> Todo) \<or>
         new = [(newTask issue rr)\<lparr>task_id := nextTaskId s\<rparr>] \<and>
           (\<forall>t. existingTask issue s = Some t \<longrightarrow> task_status t = Todo))"
  proof (cases "\<exists>t. existingTask issue s = Some t \<and> task_status t = Failed")
    case True
    then obtain t where t: "existingTask issue s = Some t" "task_status t = Failed" by blast
    have "tasks s1 = map (\<lambda>x. if task_id x = task_id t then taskRetried rr x else x) (tasks s @ [])"
      unfolding d(2) by (simp add: t resolveTaskId_def updateTasks_def)
    moreover have "\<exists>t. existingTask issue s = Some t \<and> task_status t \<noteq> Todo" using t by simp
    ultimately have "keeps_task (\<lambda>x. if task_id x = task_id t then taskRetried rr x else x) \<and>
       tasks s1 = map (\<lambda>x. if task_id x = task_id t then taskRetried rr x else x) (tasks s @ []) \<and>
        ([] = [] \<and> (\<exists>t. existingTask issue s = Some t \<and> task_status t \<noteq> Todo) \<or>
         [] = [(newTask issue rr)\<lparr>task_id := nextTaskId s\<rparr>] \<and>
           (\<forall>t. existingTask issue s = Some t \<longrightarrow> task_status t = Todo))"
      using keeps_task_retried [of "task_id t" rr] by simp
    then show ?thesis
      by (intro exI [of _ "\<lambda>x. if task_id x = task_id t then taskRetried rr x else x"]
            exI [of _ "[]"])
  next
    case nf: False
    have st: "\<forall>t. existingTask issue s = Some t \<longrightarrow> task_status t = Todo"
    proof (intro allI impI)
      fix t assume t: "existingTask issue s = Some t"
      with False nf have "task_status t \<noteq> In_progress" "task_status t \<noteq> Completed"
        "task_status t \<noteq> Failed"
        by (simp_all add: alreadyHandled_def)
      then show "task_status t = Todo" by (cases "task_status t") simp_all
    qed
    have "tasks s1 = map (\<lambda>t. t) (tasks s @ [(newTask issue rr)\<lparr>task_id := nextTaskId s\<rparr>])"
      unfolding d(2) using nf
      by (auto simp: resolveTaskId_def insertNewTask_eq split: option.splits)
    with st have "keeps_task (\<lambda>t. t) \<and>
       tasks s1 = map (\<lambda>t. t) (tasks s @ [(newTask issue rr)\<lparr>task_id := nextTaskId s\<rparr>]) \<and>
        ([(newTask issue rr)\<lparr>task_id := nextTaskId s\<rparr>] = [] \<and> (\<exists>t. existingTask issue s = Some t \<and> task_status t \<noteq> Todo) \<or>
         [(newTask issue rr)\<lparr>task_id := nextTaskId s\<rparr>] = [(newTask issue rr)\<lparr>task_id := nextTaskId s\<rparr>] \<and>
           (\<forall>t. existingTask issue s = Some t \<longrightarrow> task_status t = Todo))"
      by simp
    then show ?thesis
      by (intro exI [of _ "\<lambda>t. t"] exI [of _ "[(newTask issue rr)\<lparr>task_id := nextTaskId s\<rparr>]"])
  qed
  then obtain h new where h: "keeps_task h" "tasks s1 = map h (tasks s @ new)"
     "new = [] \<and> (\<exists>t. existingTask issue s = Some t \<and> task_status t \<noteq> Todo) \<or>
         new = [(newTask issue rr)\<lparr>task_id := nextTaskId s\<rparr>] \<and>
           (\<forall>t. existingTask issue s = Some t \<longrightarrow> task_status t = Todo)"
    by blast
  have "tasks s' = map (\<lambda>t. (if task_id (h t) = tid then f (h t) else h t)) (tasks s @ new)"
    unfolding s'_def d(6) e(3) n(1) h(2) by (simp add: comp_def)
  moreover have "keeps_task (\<lambda>t. (if task_id (h t) = tid then f (h t) else h t))"
    using keeps_task_comp [OF k h(1)] by simp
  ultimately have "keeps_task (\<lambda>t. (if task_id (h t) = tid then f (h t) else h t)) \<and>
        tasks s' = map (\<lambda>t. (if task_id (h t) = tid then f (h t) else h t)) (tasks s @ new) \<and>
        (new = [] \<and> (\<exists>t. existingTask issue s = Some t \<and> task_status t \<noteq> Todo) \<or>
         new = [(newTask issue rr)\<lparr>task_id := nextTaskId s\<rparr>] \<and>
           (\<forall>t. existingTask issue s = Some t \<longrightarrow> task_status t = Todo))"
    using h(3) by simp
  then have "\<exists>h new. keeps_task h \<and> tasks s' = map h (tasks s @ new) \<and>
        (new = [] \<and> (\<exists>t. existingTask issue s = Some t \<and> task_status t \<noteq> Todo) \<or>
         new = [(newTask issue rr)\<lparr>task_id := nextTaskId s\<rparr>] \<and>
           (\<forall>t. existingTask issue s = Some t \<longrightarrow> task_status t = Todo))"
    by (intro exI [of _ "\<lambda>t. (if task_id (h t) = tid then f (h t) else h t)"] exI [of _ new])
  moreover have "fst (handleIssue w config issue rr rc s) = Inr ()" "repos s' = repos s"
     "nextRepoId s' = nextRepoId s"
    unfolding s'_def d(6) using e(2,4,5) n(2,3) by simp_all
  ultimately show ?thesis using calls by simp
qed
lemmas handle_defs = handleIssue_def existingTask_def selectTasksByIssue_def alreadyHandled_def
  resolveTaskId_def insertNewTask_eq notifyWorking_eq addIssueLabel_def

lemmas fixture_defs = quietWorld_def storeWith_def taskRow_def issueNo_def repoRow_def
  engineConfig_def acmeRepo_def claudeConfig_def emptyState_def

lemmas row_defs = taskRetried_def taskCompleted_def taskFailed_def runCompleted_def runFailed_def
  newAgentRun_def newTask_def

section \<open>What handling an issue keeps\<close>

lemma keeps_task_D:
  assumes "keeps_task h"
  shows "task_id (h t) = task_id t" "task_githubIssueId (h t) = task_githubIssueId t"
    "task_status t \<noteq> Todo \<Longrightarrow> task_status (h t) \<noteq> Todo"
  using assms unfolding keeps_task_def by blast+

lemma map_filter_keeps:
  "keeps_task h \<Longrightarrow> List.map_filter task_githubIssueId (map h ts) = List.map_filter task_githubIssueId ts"
  by (induction ts) (simp_all add: keeps_task_D(2) split: option.splits)

lemma map_filter_append: "List.map_filter f (xs @ ys) = List.map_filter f xs @ List.map_filter f ys"
  by (simp add: List.map_filter_def)

lemma set_map_filter_issue:
  "n \<in> set (List.map_filter task_githubIssueId ts) \<longleftrightarrow> (\<exists>t \<in> set ts. task_githubIssueId t = Some n)"
  by (induction ts) (auto split: option.splits)

lemma existingTask_None_iff:
  "existingTask issue s = None \<longleftrightarrow> gi_number issue \<notin> set (issueIds s)"
  by (auto simp: existingTask_find find_None_iff issueIds_def set_map_filter_issue)

lemma existingTask_SomeD:
  "existingTask issue s = Some t \<Longrightarrow> t \<in> set (tasks s) \<and> task_githubIssueId t = Some (gi_number issue)"
  by (auto simp: existingTask_find find_Some_iff)

lemma handleIssue_keeps_one_task_per_issue:
  assumes "one_task_per_issue s"
  shows "one_task_per_issue (snd (handleIssue w config issue rr rc s))"
proof -
  let ?s' = "snd (handleIssue w config issue rr rc s)"
  obtain h new where h: "keeps_task h" "tasks ?s' = map h (tasks s @ new)"
     "new = [] \<and> (\<exists>t. existingTask issue s = Some t \<and> task_status t \<noteq> Todo) \<or>
         new = [(newTask issue rr)\<lparr>task_id := nextTaskId s\<rparr>] \<and>
           (\<forall>t. existingTask issue s = Some t \<longrightarrow> task_status t = Todo)"
    using handleIssue_summary [of w config issue rr rc s] by blast
  have base: "distinct (List.map_filter task_githubIssueId (tasks s @ new)) \<and>
     (\<forall>t \<in> set (tasks s @ new). task_githubIssueId t \<noteq> None \<longrightarrow> task_status t \<noteq> Todo)"
  proof (cases "new = []")
    case True
    with assms show ?thesis by (simp add: one_task_per_issue_def issueIds_def)
  next
    case False
    with h(3) have new: "new = [(newTask issue rr)\<lparr>task_id := nextTaskId s\<rparr>]"
      and todo: "\<forall>t. existingTask issue s = Some t \<longrightarrow> task_status t = Todo"
      by auto
    have "existingTask issue s = None"
    proof (cases "existingTask issue s")
      case None
      then show ?thesis .
    next
      case (Some t)
      with todo have "task_status t = Todo" by simp
      moreover from Some have "t \<in> set (tasks s)" "task_githubIssueId t \<noteq> None"
        using existingTask_SomeD by auto
      ultimately show ?thesis
        using assms unfolding one_task_per_issue_def by blast
    qed
    then have "gi_number issue \<notin> set (issueIds s)"
      by (simp add: existingTask_None_iff)
    with assms show ?thesis
      unfolding new one_task_per_issue_def issueIds_def
      by (simp add: map_filter_append newTask_def)
  qed
  have ids: "issueIds ?s' = List.map_filter task_githubIssueId (tasks s @ new)"
    unfolding issueIds_def h(2) using h(1) by (rule map_filter_keeps)
  have "task_status t' \<noteq> Todo"
    if "t' \<in> set (tasks ?s')" "task_githubIssueId t' \<noteq> None" for t'
  proof -
    from that(1) obtain t where t: "t \<in> set (tasks s @ new)" "t' = h t"
      unfolding h(2) set_map by blast
    with that(2) have "task_githubIssueId t \<noteq> None"
      using keeps_task_D(2) [OF h(1)] by simp
    with base t(1) have "task_status t \<noteq> Todo" by blast
    then show ?thesis unfolding t(2) by (rule keeps_task_D(3) [OF h(1)])
  qed
  with base show ?thesis
    unfolding one_task_per_issue_def ids by blast
qed

lemma keeps_dispatched:
  assumes "keeps_task h" "tasks s' = map h (tasks s @ new)" "dispatched n s"
  shows "dispatched n s'"
proof -
  from assms(3) obtain t where t: "t \<in> set (tasks s)" "task_githubIssueId t = Some n"
     "task_status t \<noteq> Todo"
    unfolding dispatched_def by blast
  then have "h t \<in> set (tasks s')" "task_githubIssueId (h t) = Some n" "task_status (h t) \<noteq> Todo"
    using assms(1) unfolding assms(2) by (simp_all add: keeps_task_D)
  then show ?thesis unfolding dispatched_def by blast
qed

lemma handleIssue_dispatched:
  "dispatched (gi_number issue) (snd (handleIssue w config issue rr rc s))"
  "dispatched n s \<Longrightarrow> dispatched n (snd (handleIssue w config issue rr rc s))"
proof -
  let ?s' = "snd (handleIssue w config issue rr rc s)"
  obtain h new where h: "keeps_task h" "tasks ?s' = map h (tasks s @ new)"
     "new = [] \<and> (\<exists>t. existingTask issue s = Some t \<and> task_status t \<noteq> Todo) \<or>
         new = [(newTask issue rr)\<lparr>task_id := nextTaskId s\<rparr>] \<and>
           (\<forall>t. existingTask issue s = Some t \<longrightarrow> task_status t = Todo)"
    using handleIssue_summary [of w config issue rr rc s] by blast
  show "dispatched n s \<Longrightarrow> dispatched n ?s'"
    using h(1,2) by (rule keeps_dispatched)
  from h(3) have "\<exists>t \<in> set (tasks s @ new). task_githubIssueId t = Some (gi_number issue) \<and> task_status t \<noteq> Todo"
  proof
    assume "new = [] \<and> (\<exists>t. existingTask issue s = Some t \<and> task_status t \<noteq> Todo)"
    then show ?thesis using existingTask_SomeD by auto
  next
    assume "new = [(newTask issue rr)\<lparr>task_id := nextTaskId s\<rparr>] \<and>
           (\<forall>t. existingTask issue s = Some t \<longrightarrow> task_status t = Todo)"
    then show ?thesis by (simp add: newTask_def)
  qed
  then obtain t where "t \<in> set (tasks s @ new)" "task_githubIssueId t = Some (gi_number issue)"
     "task_status t \<noteq> Todo" by blast
  then have "h t \<in> set (tasks ?s')" "task_githubIssueId (h t) = Some (gi_number issue)"
     "task_status (h t) \<noteq> Todo"
    using h(1) unfolding h(2) set_map by (simp_all only: keeps_task_D imageI not_False_eq_True)
  then show "dispatched (gi_number issue) ?s'" unfolding dispatched_def by blast
qed

lemma map_snd_issueKeys: "map snd (issueKeys s) = issueIds s"
proof -
  have "map snd (List.map_filter (\<lambda>t. map_option (\<lambda>n. (task_repoId t, n)) (task_githubIssueId t)) ts)
          = List.map_filter task_githubIssueId ts" for ts :: "Task list"
    by (induction ts) (auto split: option.splits)
  then show ?thesis by (simp add: issueKeys_def issueIds_def)
qed

lemma distinct_issueKeys: "one_task_per_issue s \<Longrightarrow> distinct (issueKeys s)"
  using distinct_map [of snd "issueKeys s"] by (simp add: map_snd_issueKeys one_task_per_issue_def)

section \<open>The loops of a poll cycle\<close>

lemma handleIssues_summary:
  fixes w config issues rr rc s
  defines "s' \<equiv> snd (handleIssues w config issues rr rc s)"
  shows "fst (handleIssues w config issues rr rc s) = Inr () \<and>
     repos s' = repos s \<and> nextRepoId s' = nextRepoId s \<and>
     filter isListIssues (calls s') = filter isListIssues (calls s) \<and>
     (one_task_per_issue s \<longrightarrow> one_task_per_issue s') \<and>
     (\<forall>n. dispatched n s \<longrightarrow> dispatched n s') \<and>
     (\<forall>i \<in> set issues. dispatched (gi_number i) s')"
  unfolding s'_def
proof (induction issues arbitrary: s)
  case Nil
  show ?case by simp
next
  case (Cons issue issues)
  let ?s1 = "snd (handleIssue w config issue rr rc s)"
  have h: "fst (handleIssue w config issue rr rc s) = Inr ()" "repos ?s1 = repos s"
    "nextRepoId ?s1 = nextRepoId s"
    "filter isListIssues (calls ?s1) = filter isListIssues (calls s)"
    using handleIssue_summary [of w config issue rr rc s] by blast+
  have eq: "handleIssues w config (issue # issues) rr rc s = handleIssues w config issues rr rc ?s1"
    using h(1) by (simp add: split_beta)
  have d: "dispatched (gi_number issue) ?s1" "\<And>n. dispatched n s \<Longrightarrow> dispatched n ?s1"
    by (rule handleIssue_dispatched)+
  have k: "one_task_per_issue s \<Longrightarrow> one_task_per_issue ?s1"
    by (rule handleIssue_keeps_one_task_per_issue)
  show ?case
    unfolding eq using Cons.IH [of ?s1] h(2,3,4) d k by auto
qed

lemma find_filter: "find P (filter Q xs) = find (\<lambda>x. Q x \<and> P x) xs"
  by (induction xs) auto

lemma upsertRepo_eq:
  "upsertRepo rc s =
     (case find (\<lambda>r. repo_owner r = rc_owner rc \<and> repo_name r = rc_repo rc) (repos s) of
        Some found \<Rightarrow> (Inr found, s)
      | None \<Rightarrow> (Inr ((newRepo rc)\<lparr>repo_id := nextRepoId s\<rparr>),
                 s\<lparr>repos := repos s @ [(newRepo rc)\<lparr>repo_id := nextRepoId s\<rparr>],
                   nextRepoId := Suc (nextRepoId s)\<rparr>))"
  by (simp add: upsertRepo_def Let_def find_filter insertRepo_def requireFirst_def
      split: option.splits)

lemma upsertRepo_summary:
  fixes rc s
  defines "s1 \<equiv> snd (upsertRepo rc s)"
  shows "(\<exists>r. fst (upsertRepo rc s) = Inr r) \<and> tasks s1 = tasks s \<and> calls s1 = calls s \<and>
     agentRuns s1 = agentRuns s \<and>
     (\<exists>new. repos s1 = repos s @ new) \<and>
     (\<exists>r \<in> set (repos s1). repo_owner r = rc_owner rc \<and> repo_name r = rc_repo rc)"
proof (cases "find (\<lambda>r. repo_owner r = rc_owner rc \<and> repo_name r = rc_repo rc) (repos s)")
  case None
  then show ?thesis
    unfolding s1_def by (simp add: upsertRepo_eq newRepo_def)
next
  case (Some r)
  then have "r \<in> set (repos s)" "repo_owner r = rc_owner rc \<and> repo_name r = rc_repo rc"
    by (auto simp: find_Some_iff)
  with Some show ?thesis
    unfolding s1_def by (auto simp: upsertRepo_eq)
qed

lemma processRepo_summary:
  fixes w config rc s
  defines "s' \<equiv> snd (processRepo w config rc s)"
  shows "(\<exists>new. repos s' = repos s @ new) \<and>
     (\<exists>r \<in> set (repos s'). repo_owner r = rc_owner rc \<and> repo_name r = rc_repo rc) \<and>
     filter isListIssues (calls s') =
       filter isListIssues (calls s) @ [ListIssues (rc_owner rc) (rc_repo rc) (rc_label rc)] \<and>
     (one_task_per_issue s \<longrightarrow> one_task_per_issue s') \<and>
     (\<forall>n. dispatched n s \<longrightarrow> dispatched n s') \<and>
     (\<forall>issues. w_listIssues w (calls s) (rc_owner rc) (rc_repo rc) (rc_label rc) = Inr issues \<longrightarrow>
        fst (processRepo w config rc s) = Inr () \<and> (\<forall>i \<in> set issues. dispatched (gi_number i) s'))"
proof -
  let ?s1 = "snd (upsertRepo rc s)"
  let ?s2 = "record_call (ListIssues (rc_owner rc) (rc_repo rc) (rc_label rc)) ?s1"
  obtain rr where rr: "fst (upsertRepo rc s) = Inr rr" and
    u: "tasks ?s1 = tasks s" "calls ?s1 = calls s" "\<exists>new. repos ?s1 = repos s @ new"
       "\<exists>r \<in> set (repos ?s1). repo_owner r = rc_owner rc \<and> repo_name r = rc_repo rc"
    using upsertRepo_summary [of rc s] by blast
  have s2: "tasks ?s2 = tasks s" "repos ?s2 = repos ?s1"
    "filter isListIssues (calls ?s2) =
       filter isListIssues (calls s) @ [ListIssues (rc_owner rc) (rc_repo rc) (rc_label rc)]"
    by (simp_all add: record_call_def u)
  have inv2: "one_task_per_issue ?s2 = one_task_per_issue s" "dispatched n ?s2 = dispatched n s" for n
    by (simp_all add: one_task_per_issue_def issueIds_def dispatched_def s2(1))
  show ?thesis
  proof (cases "w_listIssues w (calls s) (rc_owner rc) (rc_repo rc) (rc_label rc)")
    case (Inl e)
    have "s' = ?s2"
      unfolding s'_def processRepo_def using rr Inl
      by (simp add: split_beta listIssues_def u(2))
    then show ?thesis
      using u(3,4) s2 inv2 Inl by simp
  next
    case (Inr issues)
    have eq: "processRepo w config rc s = handleIssues w config issues rr rc ?s2"
      unfolding processRepo_def using rr Inr
      by (simp add: split_beta listIssues_def u(2))
    show ?thesis
      unfolding s'_def eq
      using handleIssues_summary [of w config issues rr rc ?s2] u(3,4) s2 inv2 Inr by simp
  qed
qed

lemma pollRepos_summary:
  fixes w config rcs s
  defines "s' \<equiv> pollRepos w config rcs s"
  shows "(\<exists>new. repos s' = repos s @ new) \<and>
     (\<forall>rc \<in> set rcs. \<exists>r \<in> set (repos s'). repo_owner r = rc_owner rc \<and> repo_name r = rc_repo rc) \<and>
     filter isListIssues (calls s') =
       filter isListIssues (calls s) @
         map (\<lambda>rc. ListIssues (rc_owner rc) (rc_repo rc) (rc_label rc)) rcs \<and>
     (one_task_per_issue s \<longrightarrow> one_task_per_issue s') \<and>
     (\<forall>n. dispatched n s \<longrightarrow> dispatched n s')"
  unfolding s'_def
proof (induction rcs arbitrary: s)
  case Nil
  show ?case by simp
next
  case (Cons rc rcs)
  let ?s1 = "snd (processRepo w config rc s)"
  let ?s' = "pollRepos w config rcs ?s1"
  obtain new1 r1 where p: "repos ?s1 = repos s @ new1"
     "r1 \<in> set (repos ?s1)" "repo_owner r1 = rc_owner rc \<and> repo_name r1 = rc_repo rc"
     "filter isListIssues (calls ?s1) =
       filter isListIssues (calls s) @ [ListIssues (rc_owner rc) (rc_repo rc) (rc_label rc)]"
     "one_task_per_issue s \<longrightarrow> one_task_per_issue ?s1"
     "\<forall>n. dispatched n s \<longrightarrow> dispatched n ?s1"
    using processRepo_summary [of w config rc s] by blast
  obtain new2 where q: "repos ?s' = repos ?s1 @ new2"
     "\<forall>rc \<in> set rcs. \<exists>r \<in> set (repos ?s'). repo_owner r = rc_owner rc \<and> repo_name r = rc_repo rc"
     "filter isListIssues (calls ?s') =
       filter isListIssues (calls ?s1) @
         map (\<lambda>rc. ListIssues (rc_owner rc) (rc_repo rc) (rc_label rc)) rcs"
     "one_task_per_issue ?s1 \<longrightarrow> one_task_per_issue ?s'"
     "\<forall>n. dispatched n ?s1 \<longrightarrow> dispatched n ?s'"
    using Cons.IH [of ?s1] by blast
  have "r1 \<in> set (repos ?s')" using p(2) q(1) by simp
  with p(3) have rc: "\<exists>r \<in> set (repos ?s'). repo_owner r = rc_owner rc \<and> repo_name r = rc_repo rc"
    by blast
  have "repos ?s' = repos s @ (new1 @ new2)" using p(1) q(1) by simp
  then have ex: "\<exists>new. repos ?s' = repos s @ new" by (rule exI)
  show ?case
    using ex rc q(2,3,4,5) p(4,5,6) by simp
qed

lemma pollRepos_append:
  "pollRepos w config (pre @ post) s = pollRepos w config post (pollRepos w config pre s)"
  by (induction pre arbitrary: s) simp_all

lemmas poll_defs = poll_def processRepo_def upsertRepo_eq listIssues_def

section \<open>Terminality of a pipeline run\<close>

text \<open>
  Claim C2. Whatever the outside world answers, \<^verbatim>\<open>runAgentForTask\<close> returns normally;
  no task row is added or removed, every task row with the given id ends with status
  \<^verbatim>\<open>completed\<close> or \<^verbatim>\<open>failed\<close>, and the agent run inserted at its start (the last row
  of the table, with the id the counter had) belongs to the task and ends with status
  \<^verbatim>\<open>completed\<close> or \<^verbatim>\<open>failed\<close>.
\<close>

theorem runAgentForTask_terminal:
  "fst (runAgentForTask w config tid issue rc s) = Inr ()
   \<and> map task_id (tasks (snd (runAgentForTask w config tid issue rc s))) = map task_id (tasks s)
   \<and> (\<forall>t \<in> set (tasks (snd (runAgentForTask w config tid issue rc s))).
         task_id t = tid \<longrightarrow> task_status t = Completed \<or> task_status t = Failed)
   \<and> length (agentRuns (snd (runAgentForTask w config tid issue rc s))) = Suc (length (agentRuns s))
   \<and> run_id (last (agentRuns (snd (runAgentForTask w config tid issue rc s)))) = nextRunId s
   \<and> run_taskId (last (agentRuns (snd (runAgentForTask w config tid issue rc s)))) = tid
   \<and> (\<forall>r \<in> set (agentRuns (snd (runAgentForTask w config tid issue rc s))).
         run_id r = nextRunId s \<longrightarrow> run_status r = Run_completed \<or> run_status r = Run_failed)"
  by (rule runAgentForTask_closed)

theorem runAgentForTask_terminal_witness:
  "tasks (snd (runAgentForTask (spawning exitTwo) engineConfig 1 (issueNo 42) acmeRepo
                 (storeWith [taskRow 1 1 42 In_progress]))) = [taskRow 1 1 42 Failed]
   \<and> task_id (taskRow 1 1 42 Failed) = 1
   \<and> (task_status (taskRow 1 1 42 Failed) = Completed \<or> task_status (taskRow 1 1 42 Failed) = Failed)
   \<and> map run_status (agentRuns (snd (runAgentForTask (spawning exitTwo) engineConfig 1 (issueNo 42)
                 acmeRepo (storeWith [taskRow 1 1 42 In_progress])))) = [Run_failed]
   \<and> map task_status (tasks (snd (runAgentForTask quietWorld engineConfig 1 (issueNo 42) acmeRepo
                 (storeWith [taskRow 1 1 42 In_progress])))) = [Completed]"
  using runAgentForTask_terminal [of "spawning exitTwo" engineConfig 1 "issueNo 42" acmeRepo
          "storeWith [taskRow 1 1 42 In_progress]"]
        runAgentForTask_terminal [of quietWorld engineConfig 1 "issueNo 42" acmeRepo
          "storeWith [taskRow 1 1 42 In_progress]"]
  by (simp add: run_defs spawning_def exitTwo_def fixture_defs
        taskFailed_def taskCompleted_def runFailed_def runCompleted_def newAgentRun_def Let_def)

section \<open>Retrying a failed task\<close>

text \<open>
  Claim C3. When the task found for an issue has status \<^verbatim>\<open>failed\<close>, handling the issue
  runs the pipeline for that same task id on a store in which the row has been set back
  to \<^verbatim>\<open>in_progress\<close>. Nothing is thrown, the task table keeps exactly its rows (no
  task is inserted and no task id is used up), and one agent run is added, with the next
  run id, bound to the reused task.
\<close>

theorem handleIssue_retry_failed:
  assumes "existingTask issue s = Some t" and "task_status t = Failed"
  shows "handleIssue w config issue rr rc s =
           runAgentForTask w config (task_id t) issue rc
             (notifyWorking w rc issue (task_id t) (updateTasks (taskRetried rr) (task_id t) s))
   \<and> (\<forall>x \<in> set (tasks (updateTasks (taskRetried rr) (task_id t) s)).
         task_id x = task_id t \<longrightarrow> task_status x = In_progress)
   \<and> fst (handleIssue w config issue rr rc s) = Inr ()
   \<and> map task_id (tasks (snd (handleIssue w config issue rr rc s))) = map task_id (tasks s)
   \<and> nextTaskId (snd (handleIssue w config issue rr rc s)) = nextTaskId s
   \<and> length (agentRuns (snd (handleIssue w config issue rr rc s))) = Suc (length (agentRuns s))
   \<and> run_id (last (agentRuns (snd (handleIssue w config issue rr rc s)))) = nextRunId s
   \<and> run_taskId (last (agentRuns (snd (handleIssue w config issue rr rc s)))) = task_id t"
proof -
  let ?s1 = "updateTasks (taskRetried rr) (task_id t) s"
  let ?s2 = "notifyWorking w rc issue (task_id t) ?s1"
  have eq: "handleIssue w config issue rr rc s = runAgentForTask w config (task_id t) issue rc ?s2"
    using assms by (rule handleIssue_retry)
  have reset: "\<forall>x \<in> set (tasks ?s1). task_id x = task_id t \<longrightarrow> task_status x = In_progress"
    by (auto simp: updateTasks_def taskRetried_def)
  have ids: "map task_id (tasks ?s2) = map task_id (tasks s)"
    by (simp add: notifyWorking_eq record_call_def updateTasks_def taskRetried_def comp_def
          if_distrib [of task_id] cong: if_cong)
  have same: "agentRuns ?s2 = agentRuns s" "nextRunId ?s2 = nextRunId s" "nextTaskId ?s2 = nextTaskId s"
    by (simp_all add: notifyWorking_eq record_call_def updateTasks_def)
  have e: "nextTaskId (snd (runAgentForTask w config (task_id t) issue rc ?s2)) = nextTaskId ?s2"
    using runAgentForTask_effects [of w config "task_id t" issue rc ?s2] by blast
  show ?thesis
    using runAgentForTask_closed [of w config "task_id t" issue rc ?s2] reset e
    unfolding eq ids same by simp
qed

theorem handleIssue_retry_failed_witness:
  "existingTask (issueNo 42) (storeWith [taskRow 1 1 42 Failed]) = Some (taskRow 1 1 42 Failed)
   \<and> task_status (taskRow 1 1 42 Failed) = Failed
   \<and> fst (handleIssue quietWorld engineConfig (issueNo 42) (repoRow 1 ''app'') acmeRepo
                (storeWith [taskRow 1 1 42 Failed])) = Inr ()
   \<and> tasks (snd (handleIssue quietWorld engineConfig (issueNo 42) (repoRow 1 ''app'') acmeRepo
                (storeWith [taskRow 1 1 42 Failed])))
      = [(taskRow 1 1 42 Completed)\<lparr>task_prNumber := Some 7,
            task_prUrl := Some ''https://github.com/acme/app/pull/7''\<rparr>]
   \<and> map run_taskId (agentRuns (snd (handleIssue quietWorld engineConfig (issueNo 42)
                (repoRow 1 ''app'') acmeRepo (storeWith [taskRow 1 1 42 Failed])))) = [1]"
proof -
  have a: "existingTask (issueNo 42) (storeWith [taskRow 1 1 42 Failed]) = Some (taskRow 1 1 42 Failed)"
    by (simp add: handle_defs storeWith_def taskRow_def issueNo_def)
  have b: "task_status (taskRow 1 1 42 Failed) = Failed"
    by (simp add: taskRow_def)
  have c: "fst (handleIssue quietWorld engineConfig (issueNo 42) (repoRow 1 ''app'') acmeRepo
                (storeWith [taskRow 1 1 42 Failed])) = Inr ()"
    using handleIssue_retry_failed [OF a b, of quietWorld engineConfig "repoRow 1 ''app''" acmeRepo]
    by blast
  have d: "tasks (snd (handleIssue quietWorld engineConfig (issueNo 42) (repoRow 1 ''app'') acmeRepo
                (storeWith [taskRow 1 1 42 Failed])))
      = [(taskRow 1 1 42 Completed)\<lparr>task_prNumber := Some 7,
            task_prUrl := Some ''https://github.com/acme/app/pull/7''\<rparr>]"
    "map run_taskId (agentRuns (snd (handleIssue quietWorld engineConfig (issueNo 42)
                (repoRow 1 ''app'') acmeRepo (storeWith [taskRow 1 1 42 Failed])))) = [1]"
    by (simp_all add: handle_defs run_defs fixture_defs row_defs Let_def)
  show ?thesis
    using a b c d by blast
qed

section \<open>Best-effort notifications\<close>

text \<open>
  Claim C6. Whenever an issue is not skipped, and whatever the outside world answers to
  the label and comment calls, handling the issue throws nothing; the two notification
  calls are made and the pipeline starts right after them (its first call, creating the
  work directory, follows them in the call log); an agent run is inserted and closed.
\<close>

theorem handleIssue_notifications_swallowed:
  assumes "\<not> alreadyHandled (existingTask issue s)"
  shows "fst (handleIssue w config issue rr rc s) = Inr ()
   \<and> (\<exists>tid cs. calls (snd (handleIssue w config issue rr rc s)) =
         calls s @ [AddIssueLabel (rc_owner rc) (rc_repo rc) (gi_number issue) ''loom:working'',
                    AddIssueComment (rc_owner rc) (rc_repo rc) (gi_number issue) (workingComment tid),
                    MkdirSync (ec_workDir config)] @ cs)
   \<and> length (agentRuns (snd (handleIssue w config issue rr rc s))) = Suc (length (agentRuns s))
   \<and> (run_status (last (agentRuns (snd (handleIssue w config issue rr rc s)))) = Run_completed \<or>
      run_status (last (agentRuns (snd (handleIssue w config issue rr rc s)))) = Run_failed)"
proof -
  obtain tid s1 where d: "agentRuns s1 = agentRuns s" "nextRunId s1 = nextRunId s" "calls s1 = calls s"
     "handleIssue w config issue rr rc s =
        runAgentForTask w config tid issue rc (notifyWorking w rc issue tid s1)"
    using handleIssue_dispatch [OF assms, of rr w config rc] by blast
  let ?s2 = "notifyWorking w rc issue tid s1"
  have n: "agentRuns ?s2 = agentRuns s" "nextRunId ?s2 = nextRunId s"
    "calls ?s2 = calls s @ [AddIssueLabel (rc_owner rc) (rc_repo rc) (gi_number issue) ''loom:working'',
                    AddIssueComment (rc_owner rc) (rc_repo rc) (gi_number issue) (workingComment tid)]"
    by (simp_all add: notifyWorking_eq record_call_def d)
  obtain cs where c: "calls (snd (runAgentForTask w config tid issue rc ?s2)) =
       calls ?s2 @ MkdirSync (ec_workDir config) # cs"
    using runAgentForTask_effects [of w config tid issue rc ?s2] by blast
  have last_closed: "run_status (last (agentRuns (snd (runAgentForTask w config tid issue rc ?s2)))) = Run_completed \<or>
      run_status (last (agentRuns (snd (runAgentForTask w config tid issue rc ?s2)))) = Run_failed"
  proof -
    have len: "length (agentRuns (snd (runAgentForTask w config tid issue rc ?s2))) = Suc (length (agentRuns ?s2))"
      and id: "run_id (last (agentRuns (snd (runAgentForTask w config tid issue rc ?s2)))) = nextRunId ?s2"
      and all: "\<forall>r \<in> set (agentRuns (snd (runAgentForTask w config tid issue rc ?s2))).
         run_id r = nextRunId ?s2 \<longrightarrow> run_status r = Run_completed \<or> run_status r = Run_failed"
      using runAgentForTask_closed [of w config tid issue rc ?s2] by blast+
    from len have "agentRuns (snd (runAgentForTask w config tid issue rc ?s2)) \<noteq> []" by auto
    then have "last (agentRuns (snd (runAgentForTask w config tid issue rc ?s2)))
                 \<in> set (agentRuns (snd (runAgentForTask w config tid issue rc ?s2)))"
      by (rule last_in_set)
    with all id show ?thesis by blast
  qed
  have "calls (snd (handleIssue w config issue rr rc s)) =
         calls s @ [AddIssueLabel (rc_owner rc) (rc_repo rc) (gi_number issue) ''loom:working'',
                    AddIssueComment (rc_owner rc) (rc_repo rc) (gi_number issue) (workingComment tid),
                    MkdirSync (ec_workDir config)] @ cs"
    unfolding d(4) c n(3) by simp
  then have calls: "\<exists>tid cs. calls (snd (handleIssue w config issue rr rc s)) =
         calls s @ [AddIssueLabel (rc_owner rc) (rc_repo rc) (gi_number issue) ''loom:working'',
                    AddIssueComment (rc_owner rc) (rc_repo rc) (gi_number issue) (workingComment tid),
                    MkdirSync (ec_workDir config)] @ cs"
    by blast
  show ?thesis
    using runAgentForTask_closed [of w config tid issue rc ?s2] calls last_closed
    unfolding d(4) n(1) by simp
qed

theorem handleIssue_notifications_swallowed_witness:
  "\<not> alreadyHandled (existingTask (issueNo 42) (storeWith []))
   \<and> w_addIssueLabel deafWorld [] ''acme'' ''app'' 42 ''loom:working'' = Inl (Error ''Label does not exist'')
   \<and> w_addIssueComment deafWorld [] ''acme'' ''app'' 42 (workingComment 1) = Inl (Error ''Service unavailable'')
   \<and> fst (handleIssue deafWorld engineConfig (issueNo 42) (repoRow 1 ''app'') acmeRepo (storeWith [])) = Inr ()
   \<and> map task_status (tasks (snd (handleIssue deafWorld engineConfig (issueNo 42) (repoRow 1 ''app'')
        acmeRepo (storeWith [])))) = [Completed]
   \<and> map run_status (agentRuns (snd (handleIssue deafWorld engineConfig (issueNo 42) (repoRow 1 ''app'')
        acmeRepo (storeWith [])))) = [Run_completed]"
proof -
  have a: "\<not> alreadyHandled (existingTask (issueNo 42) (storeWith []))"
    by (simp add: handle_defs storeWith_def)
  have b: "fst (handleIssue deafWorld engineConfig (issueNo 42) (repoRow 1 ''app'') acmeRepo (storeWith [])) = Inr ()"
    using handleIssue_notifications_swallowed [OF a, of deafWorld engineConfig "repoRow 1 ''app''" acmeRepo]
    by blast
  have c: "map task_status (tasks (snd (handleIssue deafWorld engineConfig (issueNo 42) (repoRow 1 ''app'')
        acmeRepo (storeWith [])))) = [Completed]"
    "map run_status (agentRuns (snd (handleIssue deafWorld engineConfig (issueNo 42) (repoRow 1 ''app'')
        acmeRepo (storeWith [])))) = [Run_completed]"
    by (simp_all add: handle_defs run_defs fixture_defs row_defs deafWorld_def Let_def)
  have d: "w_addIssueLabel deafWorld [] ''acme'' ''app'' 42 ''loom:working'' = Inl (Error ''Label does not exist'')"
    "w_addIssueComment deafWorld [] ''acme'' ''app'' 42 (workingComment 1) = Inl (Error ''Service unavailable'')"
    by (simp_all add: deafWorld_def)
  show ?thesis
    using a b c d by blast
qed

section \<open>Isolation of failures within a poll cycle\<close>

text \<open>
  Claim C5. Whatever the outside world answers, a poll cycle throws nothing; the issues of
  every configured repository are listed, once and in the configured order, and every
  configured repository has its row in the store afterwards; and for every configured
  repository whose listing succeeds when its turn comes, every listed issue has a
  dispatched task (a task row with its issue number that is not \<^verbatim>\<open>todo\<close>) at the end of
  the cycle, whichever pipelines or listings failed before or after it.
\<close>

theorem poll_isolation:
  "fst (poll w config s) = Inr ()
   \<and> filter isListIssues (calls (snd (poll w config s))) =
       filter isListIssues (calls s) @
         map (\<lambda>rc. ListIssues (rc_owner rc) (rc_repo rc) (rc_label rc)) (ec_repos config)
   \<and> (\<forall>rc \<in> set (ec_repos config).
         \<exists>r \<in> set (repos (snd (poll w config s))). repo_owner r = rc_owner rc \<and> repo_name r = rc_repo rc)
   \<and> (\<forall>pre rc post issues.
         ec_repos config = pre @ rc # post \<and>
         w_listIssues w (calls (pollRepos w config pre s)) (rc_owner rc) (rc_repo rc) (rc_label rc)
           = Inr issues
         \<longrightarrow> (\<forall>i \<in> set issues. dispatched (gi_number i) (snd (poll w config s))))"
proof -
  have 1: "fst (poll w config s) = Inr ()" by (simp add: poll_def)
  have 2: "filter isListIssues (calls (snd (poll w config s))) =
       filter isListIssues (calls s) @
         map (\<lambda>rc. ListIssues (rc_owner rc) (rc_repo rc) (rc_label rc)) (ec_repos config)"
    and 3: "\<forall>rc \<in> set (ec_repos config).
         \<exists>r \<in> set (repos (snd (poll w config s))). repo_owner r = rc_owner rc \<and> repo_name r = rc_repo rc"
    using pollRepos_summary [of w config "ec_repos config" s] by (simp_all add: poll_def)
  have 4: "\<forall>i \<in> set issues. dispatched (gi_number i) (snd (poll w config s))"
    if split: "ec_repos config = pre @ rc # post"
      and listed: "w_listIssues w (calls (pollRepos w config pre s)) (rc_owner rc) (rc_repo rc) (rc_label rc)
           = Inr issues"
    for pre rc post issues
  proof
    fix i assume i: "i \<in> set issues"
    let ?sk = "pollRepos w config pre s"
    let ?sk1 = "snd (processRepo w config rc ?sk)"
    have "dispatched (gi_number i) ?sk1"
      using processRepo_summary [of w config rc ?sk] listed i by blast
    then have "dispatched (gi_number i) (pollRepos w config post ?sk1)"
      using pollRepos_summary [of w config post ?sk1] by blast
    then show "dispatched (gi_number i) (snd (poll w config s))"
      by (simp add: poll_def split pollRepos_append)
  qed
  show ?thesis
    using 1 2 3 4 by blast
qed

theorem poll_isolation_witness:
  "ec_repos threeRepos = [acmeRepo, libRepo] @ toolsRepo # []
   \<and> w_listIssues roughWorld (calls (pollRepos roughWorld threeRepos [acmeRepo, libRepo] emptyState))
        (rc_owner toolsRepo) (rc_repo toolsRepo) (rc_label toolsRepo) = Inr [issueNo 3]
   \<and> dispatched 3 (snd (poll roughWorld threeRepos emptyState))
   \<and> map (\<lambda>t. (task_githubIssueId t, task_status t)) (tasks (snd (poll roughWorld threeRepos emptyState)))
        = [(Some 1, Failed), (Some 2, Failed), (Some 3, Failed)]
   \<and> filter isListIssues (calls (snd (poll roughWorld threeRepos emptyState)))
        = [ListIssues ''acme'' ''app'' ''loom'', ListIssues ''acme'' ''lib'' ''loom'',
           ListIssues ''acme'' ''tools'' ''loom'']"
proof -
  have a: "ec_repos threeRepos = [acmeRepo, libRepo] @ toolsRepo # []"
    by (simp add: threeRepos_def)
  have b: "w_listIssues roughWorld (calls (pollRepos roughWorld threeRepos [acmeRepo, libRepo] emptyState))
        (rc_owner toolsRepo) (rc_repo toolsRepo) (rc_label toolsRepo) = Inr [issueNo 3]"
    by (simp add: roughWorld_def toolsRepo_def)
  have "\<forall>i \<in> set [issueNo 3]. dispatched (gi_number i) (snd (poll roughWorld threeRepos emptyState))"
    using poll_isolation [of roughWorld threeRepos emptyState] a b by blast
  then have c: "dispatched 3 (snd (poll roughWorld threeRepos emptyState))"
    by (simp add: issueNo_def)
  have d: "map (\<lambda>t. (task_githubIssueId t, task_status t)) (tasks (snd (poll roughWorld threeRepos emptyState)))
        = [(Some 1, Failed), (Some 2, Failed), (Some 3, Failed)]"
    by (simp add: poll_defs handle_defs run_defs fixture_defs row_defs roughWorld_def threeRepos_def
          exitTwo_def libRepo_def toolsRepo_def Let_def)
  have e: "filter isListIssues (calls (snd (poll roughWorld threeRepos emptyState)))
        = [ListIssues ''acme'' ''app'' ''loom'', ListIssues ''acme'' ''lib'' ''loom'',
           ListIssues ''acme'' ''tools'' ''loom'']"
    using poll_isolation [of roughWorld threeRepos emptyState]
    by (simp add: threeRepos_def emptyState_def acmeRepo_def libRepo_def toolsRepo_def)
  show ?thesis
    using a b c d e by blast
qed

section \<open>Repository rows are only ever added\<close>

text \<open>
  Claim C10. When a row of \<^verbatim>\<open>repos\<close> with the owner and name of the configured repository
  exists, \<^verbatim>\<open>upsertRepo\<close> returns such a row as it is stored and leaves the store
  unchanged, whatever label the configuration carries (so the stored watch label is not
  updated); and processing a repository or running a whole poll cycle leaves every
  existing row of \<^verbatim>\<open>repos\<close> in place and unmodified, only appending rows.
\<close>

theorem upsertRepo_existing_unchanged:
  assumes "r \<in> set (repos s)" and "repo_owner r = rc_owner rc" and "repo_name r = rc_repo rc"
  shows "(\<exists>found \<in> set (repos s).
            repo_owner found = rc_owner rc \<and> repo_name found = rc_repo rc \<and>
            (\<forall>label. upsertRepo (rc\<lparr>rc_label := label\<rparr>) s = (Inr found, s)))
   \<and> (\<exists>new. repos (snd (processRepo w config rc s)) = repos s @ new)
   \<and> (\<exists>new. repos (snd (poll w config s)) = repos s @ new)"
proof -
  let ?P = "\<lambda>r. repo_owner r = rc_owner rc \<and> repo_name r = rc_repo rc"
  from assms have "find ?P (repos s) \<noteq> None"
    by (auto simp: find_None_iff)
  then obtain found where f: "find ?P (repos s) = Some found" by blast
  then have "found \<in> set (repos s)" "repo_owner found = rc_owner rc" "repo_name found = rc_repo rc"
    by (auto simp: find_Some_iff)
  moreover have "upsertRepo (rc\<lparr>rc_label := label\<rparr>) s = (Inr found, s)" for label
    using f by (simp add: upsertRepo_eq)
  ultimately have 1: "\<exists>found \<in> set (repos s).
            repo_owner found = rc_owner rc \<and> repo_name found = rc_repo rc \<and>
            (\<forall>label. upsertRepo (rc\<lparr>rc_label := label\<rparr>) s = (Inr found, s))"
    by blast
  have 2: "\<exists>new. repos (snd (processRepo w config rc s)) = repos s @ new"
    using processRepo_summary [of w config rc s] by blast
  have 3: "\<exists>new. repos (snd (poll w config s)) = repos s @ new"
    using pollRepos_summary [of w config "ec_repos config" s] by (simp add: poll_def)
  show ?thesis using 1 2 3 by blast
qed

theorem upsertRepo_existing_unchanged_witness:
  "repoRow 1 ''app'' \<in> set (repos (storeWith []))
   \<and> repo_owner (repoRow 1 ''app'') = rc_owner acmeRepo
   \<and> repo_name (repoRow 1 ''app'') = rc_repo acmeRepo
   \<and> repo_watchLabel (repoRow 1 ''app'') = ''loom''
   \<and> upsertRepo (acmeRepo\<lparr>rc_label := ''bot''\<rparr>) (storeWith []) = (Inr (repoRow 1 ''app''), storeWith [])
   \<and> (\<exists>new. repos (snd (poll roughWorld threeRepos (storeWith []))) = repos (storeWith []) @ new)"
proof -
  have a: "repoRow 1 ''app'' \<in> set (repos (storeWith []))"
    "repo_owner (repoRow 1 ''app'') = rc_owner acmeRepo"
    "repo_name (repoRow 1 ''app'') = rc_repo acmeRepo"
    "repo_watchLabel (repoRow 1 ''app'') = ''loom''"
    by (simp_all add: storeWith_def repoRow_def acmeRepo_def)
  have b: "upsertRepo (acmeRepo\<lparr>rc_label := ''bot''\<rparr>) (storeWith []) = (Inr (repoRow 1 ''app''), storeWith [])"
    by (simp add: upsertRepo_eq storeWith_def repoRow_def acmeRepo_def)
  have c: "\<exists>new. repos (snd (poll roughWorld threeRepos (storeWith []))) = repos (storeWith []) @ new"
    using upsertRepo_existing_unchanged [OF a(1,2,3), of roughWorld threeRepos] by blast
  show ?thesis using a b c by blast
qed

section \<open>The task of an issue\<close>

text \<open>
  What the lookup of \<^verbatim>\<open>handleIssue\<close> keeps. The task looked up for an issue is the first
  task row whose \<^verbatim>\<open>githubIssueId\<close> is the issue number. While that row is
  \<^verbatim>\<open>in_progress\<close> or \<^verbatim>\<open>completed\<close>, handling the issue changes nothing at all. And a
  store in which no two task rows carry the same issue number and none of them is
  \<^verbatim>\<open>todo\<close> is still such a store after handling an issue and after a whole poll cycle, so
  that no two task rows carry the same pair of repository and issue number either.
\<close>

lemma poll_keeps_one_task_per_issue:
  "existingTask issue s = find (\<lambda>t. task_githubIssueId t = Some (gi_number issue)) (tasks s)
   \<and> (\<forall>t. existingTask issue s = Some t \<and> (task_status t = In_progress \<or> task_status t = Completed)
          \<longrightarrow> handleIssue w config issue rr rc s = (Inr (), s))
   \<and> (one_task_per_issue s \<longrightarrow> one_task_per_issue (snd (handleIssue w config issue rr rc s)))
   \<and> (one_task_per_issue s \<longrightarrow> one_task_per_issue (snd (poll w config s)) \<and>
                                 distinct (issueKeys (snd (poll w config s))))"
proof -
  have 2: "handleIssue w config issue rr rc s = (Inr (), s)"
    if "existingTask issue s = Some t \<and> (task_status t = In_progress \<or> task_status t = Completed)" for t
    using that by (intro handleIssue_skip) (simp add: alreadyHandled_def)
  have 4: "one_task_per_issue s \<longrightarrow> one_task_per_issue (snd (poll w config s))"
    using pollRepos_summary [of w config "ec_repos config" s] by (simp add: poll_def)
  then have 5: "one_task_per_issue s \<longrightarrow> distinct (issueKeys (snd (poll w config s)))"
    using distinct_issueKeys by blast
  show ?thesis
    using existingTask_find [of issue s] 2 4 5
      handleIssue_keeps_one_task_per_issue [of s w config issue rr rc]
    by blast
qed

text \<open>
  Claim C1, where the code departs from it. The claim has the task of an issue looked up
  by the pair of repository and issue number. The code looks it up by the issue number
  alone, although it holds the repository row and stores its id on the task. Take two
  watched repositories, \<^verbatim>\<open>acme/app\<close> and \<^verbatim>\<open>acme/lib\<close>, that each have an open issue
  number 5, and an empty store. After one poll cycle in which every step succeeds, the
  store holds one task, the one of \<^verbatim>\<open>acme/app\<close>, and one agent run: issue 5 of
  \<^verbatim>\<open>acme/lib\<close>, for which the lookup by the pair finds no task, was skipped as already
  handled and will be skipped in every later cycle. After one poll cycle in which every
  child process fails, the store again holds one task, now bound to \<^verbatim>\<open>acme/lib\<close>, and two
  failed agent runs of it: the failed task of \<^verbatim>\<open>acme/app\<close> was taken over as the retry of
  issue 5 of \<^verbatim>\<open>acme/lib\<close>, and the pair of \<^verbatim>\<open>acme/app\<close> and 5 is left with no task.
\<close>

theorem poll_shares_task_across_repositories:
  "map (\<lambda>r. (repo_id r, repo_owner r, repo_name r)) (repos (snd (poll twinWorld twoRepos emptyState)))
     = [(1, ''acme'', ''app''), (2, ''acme'', ''lib'')]
   \<and> map (\<lambda>t. (task_id t, task_repoId t, task_githubIssueId t, task_status t))
        (tasks (snd (poll twinWorld twoRepos emptyState)))
     = [(1, Some 1, Some 5, Completed)]
   \<and> map (\<lambda>r. (run_taskId r, run_status r)) (agentRuns (snd (poll twinWorld twoRepos emptyState)))
     = [(1, Run_completed)]
   \<and> findTaskByIssue_spec 2 5 (snd (poll twinWorld twoRepos emptyState)) = None
   \<and> map (\<lambda>t. (task_id t, task_repoId t, task_githubIssueId t, task_status t))
        (tasks (snd (poll twinRoughWorld twoRepos emptyState)))
     = [(1, Some 2, Some 5, Failed)]
   \<and> map (\<lambda>r. (run_taskId r, run_status r)) (agentRuns (snd (poll twinRoughWorld twoRepos emptyState)))
     = [(1, Run_failed), (1, Run_failed)]
   \<and> findTaskByIssue_spec 1 5 (snd (poll twinRoughWorld twoRepos emptyState)) = None"
proof -
  have quiet:
    "map (\<lambda>r. (repo_id r, repo_owner r, repo_name r)) (repos (snd (poll twinWorld twoRepos emptyState)))
       = [(1, ''acme'', ''app''), (2, ''acme'', ''lib'')]"
    "map (\<lambda>t. (task_id t, task_repoId t, task_githubIssueId t, task_status t))
        (tasks (snd (poll twinWorld twoRepos emptyState)))
       = [(1, Some 1, Some 5, Completed)]"
    "map (\<lambda>r. (run_taskId r, run_status r)) (agentRuns (snd (poll twinWorld twoRepos emptyState)))
       = [(1, Run_completed)]"
    "findTaskByIssue_spec 2 5 (snd (poll twinWorld twoRepos emptyState)) = None"
    by (simp_all add: findTaskByIssue_spec_def poll_defs handle_defs run_defs fixture_defs row_defs
          twinWorld_def twoRepos_def libRepo_def newRepo_def Let_def)
  have rough:
    "map (\<lambda>t. (task_id t, task_repoId t, task_githubIssueId t, task_status t))
        (tasks (snd (poll twinRoughWorld twoRepos emptyState)))
       = [(1, Some 2, Some 5, Failed)]"
    "map (\<lambda>r. (run_taskId r, run_status r)) (agentRuns (snd (poll twinRoughWorld twoRepos emptyState)))
       = [(1, Run_failed), (1, Run_failed)]"
    "findTaskByIssue_spec 1 5 (snd (poll twinRoughWorld twoRepos emptyState)) = None"
    by (simp_all add: findTaskByIssue_spec_def poll_defs handle_defs run_defs fixture_defs row_defs
          twinRoughWorld_def twinWorld_def exitTwo_def twoRepos_def libRepo_def newRepo_def Let_def)
  show ?thesis
    using quiet rough by blast
qed

section \<open>The branch of a task\<close>

text \<open>
  Claim C9. The branch \<^verbatim>\<open>prepareWorkDir\<close> hands to the rest of the pipeline is
  \<^verbatim>\<open>loom/issue-\<close> followed by the issue number, and it is the branch that
  \<^verbatim>\<open>prepareBranch\<close>, \<^verbatim>\<open>executeAgent\<close> and \<^verbatim>\<open>submitPullRequest\<close> are run with.
  \<^verbatim>\<open>prepareBranch\<close> throws exactly when the local \<^verbatim>\<open>git checkout -b\<close> reports an error
  or a non-zero status; what the remote \<^verbatim>\<open>createBranch\<close> call answers, an error
  included, changes neither its result nor the state it leaves.
\<close>

theorem prepareBranch_tolerates_createBranch:
  "issueBranch issue = ''loom/issue-'' @ string_of_nat (gi_number issue)
   \<and> (\<forall>b d. fst (prepareWorkDir w config rc issue s) = Inr (b, d) \<longrightarrow> b = issueBranch issue)
   \<and> pipelineSteps w config tid rid issue rc s =
       (case prepareWorkDir w config rc issue s of
          (Inl e, s1) \<Rightarrow> (Inl e, s1)
        | (Inr _, s1) \<Rightarrow>
            (case prepareBranch w rc (issueBranch issue) (issueRepoDir config rc issue) s1 of
               (Inl e, s2) \<Rightarrow> (Inl e, s2)
             | (Inr _, s2) \<Rightarrow>
                 (case executeAgent w config issue (issueRepoDir config rc issue)
                         (issueBranch issue) tid s2 of
                    (Inl e, s3) \<Rightarrow> (Inl e, s3)
                  | (Inr result, s3) \<Rightarrow>
                      submitPullRequest w config result issue rc (issueBranch issue) tid rid s3)))
   \<and> ((\<exists>e. fst (prepareBranch w rc branch repoDir s) = Inl e) \<longleftrightarrow>
        sp_error (checkoutAnswer w rc branch repoDir s) \<noteq> None \<or>
        sp_status (checkoutAnswer w rc branch repoDir s) \<noteq> Some 0)
   \<and> (\<forall>answer. prepareBranch (w\<lparr>w_createBranch := answer\<rparr>) rc branch repoDir s =
                 prepareBranch w rc branch repoDir s)"
proof -
  have 0: "issueBranch issue = ''loom/issue-'' @ string_of_nat (gi_number issue)"
    by (simp add: issueBranch_def)
  have 1: "b = issueBranch issue"
    if "fst (prepareWorkDir w config rc issue s) = Inr (b, d)" for b d
    using prepareWorkDir_names [OF that] by simp
  have 2: "(\<exists>e. fst (prepareBranch w rc branch repoDir s) = Inl e) \<longleftrightarrow>
        sp_error (checkoutAnswer w rc branch repoDir s) \<noteq> None \<or>
        sp_status (checkoutAnswer w rc branch repoDir s) \<noteq> Some 0"
    unfolding prepareBranch_def checkoutBranch_def checkoutAnswer_def Let_def
    by (auto simp: split_beta createBranch_def spawnSync_def record_call_def split: option.splits)
  have 3: "prepareBranch (w\<lparr>w_createBranch := answer\<rparr>) rc branch repoDir s =
                 prepareBranch w rc branch repoDir s" for answer
    unfolding prepareBranch_def checkoutBranch_def Let_def
    by (simp add: split_beta createBranch_def spawnSync_def record_call_def)
  show ?thesis
    using 0 1 2 3 pipelineSteps_branch [of w config tid rid issue rc s] by blast
qed

theorem prepareBranch_tolerates_createBranch_witness:
  "fst (prepareWorkDir branchTaken engineConfig acmeRepo (issueNo 42) emptyState)
     = Inr (''loom/issue-42'', ''/tmp/loom-agent/acme-app-42'')
   \<and> issueBranch (issueNo 42) = ''loom/issue-42''
   \<and> fst (createBranch branchTaken
            \<lparr> cb_owner = ''acme'', cb_repo = ''app'', cb_branch = ''loom/issue-42'',
              cb_fromBranch = None \<rparr> emptyState) = Inl (Error ''Reference already exists'')
   \<and> fst (prepareBranch branchTaken acmeRepo ''loom/issue-42'' ''/tmp/loom-agent/acme-app-42'' emptyState)
       = Inr ()
   \<and> (\<exists>e. fst (prepareBranch (spawning exitTwo) acmeRepo ''loom/issue-42''
                   ''/tmp/loom-agent/acme-app-42'' emptyState) = Inl e)"
proof -
  have n: "string_of_nat 42 = ''42''" by code_simp
  have p: "path_join ''/tmp/loom-agent'' ''acme-app-42'' = ''/tmp/loom-agent/acme-app-42''" by code_simp
  have a: "fst (prepareWorkDir branchTaken engineConfig acmeRepo (issueNo 42) emptyState)
     = Inr (''loom/issue-42'', ''/tmp/loom-agent/acme-app-42'')"
    by (simp add: run_defs fixture_defs branchTaken_def issueBranch_def issueRepoDir_def
          workspaceName_def n p Let_def)
  have "''loom/issue-42'' = issueBranch (issueNo 42)"
    using prepareBranch_tolerates_createBranch [of "issueNo 42" branchTaken engineConfig acmeRepo
            emptyState] a
    by blast
  then have a': "issueBranch (issueNo 42) = ''loom/issue-42''" by simp
  have b: "fst (createBranch branchTaken
            \<lparr> cb_owner = ''acme'', cb_repo = ''app'', cb_branch = ''loom/issue-42'',
              cb_fromBranch = None \<rparr> emptyState) = Inl (Error ''Reference already exists'')"
    by (simp add: createBranch_def branchTaken_def)
  have c: "fst (prepareBranch branchTaken acmeRepo ''loom/issue-42'' ''/tmp/loom-agent/acme-app-42'' emptyState)
       = Inr ()"
    by (simp add: run_defs fixture_defs branchTaken_def)
  have "sp_status (checkoutAnswer (spawning exitTwo) acmeRepo ''loom/issue-42''
                   ''/tmp/loom-agent/acme-app-42'' emptyState) \<noteq> Some 0"
    by (simp add: checkoutAnswer_def spawning_def exitTwo_def)
  then have d: "\<exists>e. fst (prepareBranch (spawning exitTwo) acmeRepo ''loom/issue-42''
                   ''/tmp/loom-agent/acme-app-42'' emptyState) = Inl e"
    using prepareBranch_tolerates_createBranch [of "issueNo 42" "spawning exitTwo" engineConfig
            acmeRepo emptyState 1 1 "''loom/issue-42''" "''/tmp/loom-agent/acme-app-42''"]
    by blast
  show ?thesis using a a' b c d by blast
qed

section \<open>The workspace directory of a task\<close>




end
